theory Spec2Isabelle
  imports Complex_Main "HOL-Library.Monad_Syntax"
begin

section \<open>Tensors\<close>

text \<open>
  A tensor is its shape and its entries in row-major order. Entries are real numbers: the
  development reasons about the mathematical maps that the floating-point code computes.
  A Python number is represented as a tensor of rank 0, with which it shares its
  broadcasting behaviour. An operation that raises in Python returns \<open>None\<close>.

  Isabelle identifiers cannot end in an underscore, so the trailing underscore of the
  source's class names is written \<open>_m\<close> for the objects (\<open>Tanh_m\<close> is an instance of
  \<open>Tanh_\<close>) and dropped before a method name (\<open>Tanh_forward\<close> is \<open>Tanh_.forward\<close>).
\<close>

record tensor =
  shape :: "nat list"
  data :: "real list"

definition wf_tensor :: "tensor \<Rightarrow> bool" where
  "wf_tensor t \<longleftrightarrow> length (data t) = prod_list (shape t)"

definition scalar :: "real \<Rightarrow> tensor" where
  "scalar c = \<lparr>shape = [], data = [c]\<rparr>"

definition full :: "nat list \<Rightarrow> real \<Rightarrow> tensor" where
  "full s c = \<lparr>shape = s, data = replicate (prod_list s) c\<rparr>"

definition tmap :: "(real \<Rightarrow> real) \<Rightarrow> tensor \<Rightarrow> tensor" where
  "tmap f t = \<lparr>shape = shape t, data = map f (data t)\<rparr>"

text \<open>Broadcasting: shapes are aligned at their last axis; two extents are compatible when
  they are equal or one of them is 1.\<close>

fun broadcast_rev :: "nat list \<Rightarrow> nat list \<Rightarrow> nat list option" where
  "broadcast_rev [] ys = Some ys"
| "broadcast_rev (x # xs) [] = Some (x # xs)"
| "broadcast_rev (x # xs) (y # ys) =
     (if x = y \<or> y = 1 then map_option ((#) x) (broadcast_rev xs ys)
      else if x = 1 then map_option ((#) y) (broadcast_rev xs ys)
      else None)"

definition broadcast_shapes :: "nat list \<Rightarrow> nat list \<Rightarrow> nat list option" where
  "broadcast_shapes s t = map_option rev (broadcast_rev (rev s) (rev t))"

text \<open>\<open>expand s t d\<close> repeats the entries \<open>d\<close> of a tensor of shape \<open>s\<close> along every axis
  where \<open>s\<close> has extent 1 and \<open>t\<close> has not; \<open>s\<close> and \<open>t\<close> have the same rank.\<close>

fun expand :: "nat list \<Rightarrow> nat list \<Rightarrow> real list \<Rightarrow> real list" where
  "expand (s # ss) (t # ts) d =
     (if s = t
      then concat (map (\<lambda>j. expand ss ts (take (prod_list ss) (drop (j * prod_list ss) d))) [0..<s])
      else concat (replicate t (expand ss ts d)))"
| "expand [] ts d = d"
| "expand (s # ss) [] d = d"

definition broadcast_to :: "nat list \<Rightarrow> tensor \<Rightarrow> real list" where
  "broadcast_to s t = expand (replicate (length s - length (shape t)) 1 @ shape t) s (data t)"

definition bop :: "(real \<Rightarrow> real \<Rightarrow> real) \<Rightarrow> tensor \<Rightarrow> tensor \<Rightarrow> tensor option" where
  "bop f a b =
     (case broadcast_shapes (shape a) (shape b) of
        None \<Rightarrow> None
      | Some s \<Rightarrow> Some \<lparr>shape = s, data = map2 f (broadcast_to s a) (broadcast_to s b)\<rparr>)"

definition ravel :: "tensor \<Rightarrow> tensor" where
  "ravel t = \<lparr>shape = [length (data t)], data = data t\<rparr>"

definition reshape :: "tensor \<Rightarrow> nat list \<Rightarrow> tensor option" where
  "reshape t s = (if prod_list s = length (data t) then Some \<lparr>shape = s, data = data t\<rparr> else None)"

section \<open>The module base class\<close>

text \<open>
  Modelled from the spec: \<open>Module_\<close> of \<open>_core\<close>, which is not among the sources. The
  density-reduction helper, given a per-element log-Jacobian array, returns the array itself
  in per-element mode (the process-wide flag \<open>propagate_density\<close> set) and its sum over all
  axes except the batch axis in scalar mode. The flag is read at each call, so it is an
  argument \<open>pd\<close> of every function that depends on it.
\<close>

definition sum_nonbatch :: "tensor \<Rightarrow> tensor" where
  "sum_nonbatch x =
     (case shape x of
        [] \<Rightarrow> x
      | b # rest \<Rightarrow>
          \<lparr>shape = [b],
           data = map (\<lambda>j. sum_list (take (prod_list rest) (drop (j * prod_list rest) (data x))))
                    [0..<b]\<rparr>)"

definition Module_sum_density :: "bool \<Rightarrow> tensor \<Rightarrow> tensor" where
  "Module_sum_density pd x = (if pd then x else sum_nonbatch x)"

text \<open>The attributes every module object carries: its label and the reduction function that
  \<open>self.sum_density\<close> resolves to (the class's own, unless an instance attribute replaces it).\<close>

record attrs =
  label :: "string option"
  sum_density :: "bool \<Rightarrow> tensor \<Rightarrow> tensor"

definition Module_init :: "string option \<Rightarrow> attrs" where
  "Module_init l = \<lparr>label = l, sum_density = Module_sum_density\<rparr>"

section \<open>The spline evaluator and the mask\<close>

text \<open>
  The spline evaluator is a supplied capability: \<open>spline_call\<close> is
  \<open>make_spline()(x, grad=True)\<close> and \<open>spline_inverse\<close> is
  \<open>make_spline().backward(x, grad=True)\<close>, each returning the values and the gradients.
  \<open>SplineNet.__init__\<close> is not among the sources; a spline stage records the arguments it was
  constructed with.
\<close>

record spline =
  spline_shape :: "nat list"
  spline_call :: "tensor \<Rightarrow> (tensor \<times> tensor) option"
  spline_inverse :: "tensor \<Rightarrow> (tensor \<times> tensor) option"

datatype kwval = Lim real real | Extrap "(string \<times> string) list" | Other string

type_synonym kwargs = "(string \<times> kwval) list"

record splinenet =
  knots_len :: int
  kw :: kwargs
  spl :: spline

text \<open>The mask is a supplied capability with the three operations the wrapper calls.\<close>

record mask =
  mask_split :: "tensor \<Rightarrow> (tensor \<times> tensor) option"
  mask_purify :: "tensor \<Rightarrow> nat \<Rightarrow> tensor option"
  mask_cat :: "tensor \<Rightarrow> tensor \<Rightarrow> tensor option"

section \<open>The modules\<close>

datatype module =
    Identity_m attrs
  | Clone_m attrs
  | ScaleNet_m attrs tensor
  | Tanh_m attrs
  | ArcTanh_m attrs
  | Expit_m attrs
  | Logit_m attrs
  | SplineNet_m attrs splinenet
  | SgnBiasNet_m attrs tensor
  | DistConvertor_m attrs "module list"
  | MaskedWrapperNet_m attrs module mask "bool \<Rightarrow> tensor \<Rightarrow> tensor"

fun attrs_of :: "module \<Rightarrow> attrs" where
  "attrs_of (Identity_m a) = a"
| "attrs_of (Clone_m a) = a"
| "attrs_of (ScaleNet_m a logw) = a"
| "attrs_of (Tanh_m a) = a"
| "attrs_of (ArcTanh_m a) = a"
| "attrs_of (Expit_m a) = a"
| "attrs_of (Logit_m a) = a"
| "attrs_of (SplineNet_m a sp) = a"
| "attrs_of (SgnBiasNet_m a w) = a"
| "attrs_of (DistConvertor_m a nets) = a"
| "attrs_of (MaskedWrapperNet_m a net m orig) = a"

fun set_attrs :: "module \<Rightarrow> attrs \<Rightarrow> module" where
  "set_attrs (Identity_m a) b = Identity_m b"
| "set_attrs (Clone_m a) b = Clone_m b"
| "set_attrs (ScaleNet_m a logw) b = ScaleNet_m b logw"
| "set_attrs (Tanh_m a) b = Tanh_m b"
| "set_attrs (ArcTanh_m a) b = ArcTanh_m b"
| "set_attrs (Expit_m a) b = Expit_m b"
| "set_attrs (Logit_m a) b = Logit_m b"
| "set_attrs (SplineNet_m a sp) b = SplineNet_m b sp"
| "set_attrs (SgnBiasNet_m a w) b = SgnBiasNet_m b w"
| "set_attrs (DistConvertor_m a nets) b = DistConvertor_m b nets"
| "set_attrs (MaskedWrapperNet_m a net m orig) b = MaskedWrapperNet_m b net m orig"

definition label_of :: "module \<Rightarrow> string option" where
  "label_of net = label (attrs_of net)"

subsection \<open>Identity\_ and Clone\_\<close>

definition Identity_forward :: "tensor \<Rightarrow> tensor \<Rightarrow> (tensor \<times> tensor) option" where
  "Identity_forward x log0 = Some (x, log0)"

definition Identity_backward :: "tensor \<Rightarrow> tensor \<Rightarrow> (tensor \<times> tensor) option" where
  "Identity_backward x log0 = Some (x, log0)"

definition Clone_forward :: "tensor \<Rightarrow> tensor \<Rightarrow> (tensor \<times> tensor) option" where
  "Clone_forward x log0 = Some (x, log0)"

definition Clone_backward :: "tensor \<Rightarrow> tensor \<Rightarrow> (tensor \<times> tensor) option" where
  "Clone_backward x log0 = Some (x, log0)"

subsection \<open>ScaleNet\_\<close>

definition ScaleNet_init :: "string \<Rightarrow> module" where
  "ScaleNet_init l = ScaleNet_m (Module_init (Some l)) (full [1] 0)"

definition ScaleNet_log_jacobian :: "bool \<Rightarrow> tensor \<Rightarrow> nat list \<Rightarrow> tensor option" where
  "ScaleNet_log_jacobian pd logw x_shape =
     (if pd then bop (*) logw (full x_shape 1)
      else
        (let logwscaled = tmap (\<lambda>v. v * real (prod_list (drop 1 x_shape))) logw
         in case x_shape of
              [] \<Rightarrow> None
            | b # rest \<Rightarrow> bop (*) logwscaled (full [b] 1)))"

definition ScaleNet_forward ::
  "bool \<Rightarrow> tensor \<Rightarrow> tensor \<Rightarrow> tensor \<Rightarrow> (tensor \<times> tensor) option" where
  "ScaleNet_forward pd logw x log0 =
     do {
       y \<leftarrow> bop (*) x (tmap exp logw);
       j \<leftarrow> ScaleNet_log_jacobian pd logw (shape x);
       l \<leftarrow> bop (+) log0 j;
       Some (y, l)
     }"

definition ScaleNet_backward ::
  "bool \<Rightarrow> tensor \<Rightarrow> tensor \<Rightarrow> tensor \<Rightarrow> (tensor \<times> tensor) option" where
  "ScaleNet_backward pd logw x log0 =
     do {
       y \<leftarrow> bop (/) x (tmap exp logw);
       j \<leftarrow> ScaleNet_log_jacobian pd logw (shape x);
       l \<leftarrow> bop (-) log0 j;
       Some (y, l)
     }"

subsection \<open>Tanh\_ and ArcTanh\_, Expit\_ and Logit\_\<close>

definition Tanh_forward ::
  "bool \<Rightarrow> attrs \<Rightarrow> tensor \<Rightarrow> tensor \<Rightarrow> (tensor \<times> tensor) option" where
  "Tanh_forward pd self x log0 =
     do {
       let logJ = tmap (\<lambda>v. - 2 * v) (sum_density self pd (tmap (\<lambda>v. ln (cosh v)) x));
       l \<leftarrow> bop (+) log0 logJ;
       Some (tmap tanh x, l)
     }"

definition ArcTanh_forward ::
  "bool \<Rightarrow> attrs \<Rightarrow> tensor \<Rightarrow> tensor \<Rightarrow> (tensor \<times> tensor) option" where
  "ArcTanh_forward pd self x log0 =
     do {
       let y = tmap artanh x;
       let logJ = tmap (\<lambda>v. 2 * v) (sum_density self pd (tmap (\<lambda>v. ln (cosh v)) y));
       l \<leftarrow> bop (+) log0 logJ;
       Some (y, l)
     }"

definition Tanh_backward ::
  "bool \<Rightarrow> attrs \<Rightarrow> tensor \<Rightarrow> tensor \<Rightarrow> (tensor \<times> tensor) option" where
  "Tanh_backward pd self x log0 = ArcTanh_forward pd (Module_init None) x log0"

definition ArcTanh_backward ::
  "bool \<Rightarrow> attrs \<Rightarrow> tensor \<Rightarrow> tensor \<Rightarrow> (tensor \<times> tensor) option" where
  "ArcTanh_backward pd self x log0 = Tanh_forward pd (Module_init None) x log0"

definition Expit_forward ::
  "bool \<Rightarrow> attrs \<Rightarrow> tensor \<Rightarrow> tensor \<Rightarrow> (tensor \<times> tensor) option" where
  "Expit_forward pd self x log0 =
     do {
       let y = tmap (\<lambda>v. 1 / (1 + exp (- v))) x;
       d \<leftarrow> bop (+) (tmap uminus x) (tmap (\<lambda>v. 2 * ln v) y);
       let logJ = sum_density self pd d;
       l \<leftarrow> bop (+) log0 logJ;
       Some (y, l)
     }"

definition Logit_forward ::
  "bool \<Rightarrow> attrs \<Rightarrow> tensor \<Rightarrow> tensor \<Rightarrow> (tensor \<times> tensor) option" where
  "Logit_forward pd self x log0 =
     do {
       q \<leftarrow> bop (/) x (tmap (\<lambda>v. 1 - v) x);
       let y = tmap ln q;
       p \<leftarrow> bop (*) x (tmap (\<lambda>v. 1 - v) x);
       let logJ = tmap uminus (sum_density self pd (tmap ln p));
       l \<leftarrow> bop (+) log0 logJ;
       Some (y, l)
     }"

definition Expit_backward ::
  "bool \<Rightarrow> attrs \<Rightarrow> tensor \<Rightarrow> tensor \<Rightarrow> (tensor \<times> tensor) option" where
  "Expit_backward pd self x log0 = Logit_forward pd (Module_init None) x log0"

definition Logit_backward ::
  "bool \<Rightarrow> attrs \<Rightarrow> tensor \<Rightarrow> tensor \<Rightarrow> (tensor \<times> tensor) option" where
  "Logit_backward pd self x log0 = Expit_forward pd (Module_init None) x log0"

subsection \<open>SplineNet\_\<close>

definition SplineNet_forward ::
  "bool \<Rightarrow> attrs \<Rightarrow> splinenet \<Rightarrow> tensor \<Rightarrow> tensor \<Rightarrow> (tensor \<times> tensor) option" where
  "SplineNet_forward pd self sp x log0 =
     do {
       (fx, g) \<leftarrow>
         (if length (spline_shape (spl sp)) > 0 then spline_call (spl sp) x
          else do {
            (fx, g) \<leftarrow> spline_call (spl sp) (ravel x);
            fx' \<leftarrow> reshape fx (shape x);
            g' \<leftarrow> reshape g (shape x);
            Some (fx', g')
          });
       let logJ = sum_density self pd (tmap ln g);
       l \<leftarrow> bop (+) log0 logJ;
       Some (fx, l)
     }"

definition SplineNet_backward ::
  "bool \<Rightarrow> attrs \<Rightarrow> splinenet \<Rightarrow> tensor \<Rightarrow> tensor \<Rightarrow> (tensor \<times> tensor) option" where
  "SplineNet_backward pd self sp x log0 =
     do {
       (fx, g) \<leftarrow>
         (if length (spline_shape (spl sp)) > 0 then spline_inverse (spl sp) x
          else do {
            (fx, g) \<leftarrow> spline_inverse (spl sp) (ravel x);
            fx' \<leftarrow> reshape fx (shape x);
            g' \<leftarrow> reshape g (shape x);
            Some (fx', g')
          });
       let logJ = sum_density self pd (tmap ln g);
       l \<leftarrow> bop (+) log0 logJ;
       Some (fx, l)
     }"

subsection \<open>SgnBiasNet\_\<close>

text \<open>\<open>u\<close> is the draw of \<open>torch.rand(*size)\<close>, of shape \<open>size\<close>.\<close>

definition SgnBiasNet_init :: "tensor \<Rightarrow> string \<Rightarrow> module" where
  "SgnBiasNet_init u l = SgnBiasNet_m (Module_init (Some l)) (tmap (\<lambda>v. v / 10) u)"

definition SgnBiasNet_forward :: "tensor \<Rightarrow> tensor \<Rightarrow> tensor \<Rightarrow> (tensor \<times> tensor) option" where
  "SgnBiasNet_forward w x log0 =
     do {
       b \<leftarrow> bop (*) (tmap sgn x) (tmap (\<lambda>v. v ^ 2) w);
       y \<leftarrow> bop (+) x b;
       Some (y, log0)
     }"

definition SgnBiasNet_backward :: "tensor \<Rightarrow> tensor \<Rightarrow> tensor \<Rightarrow> (tensor \<times> tensor) option" where
  "SgnBiasNet_backward w x log0 =
     do {
       b \<leftarrow> bop (*) (tmap sgn x) (tmap (\<lambda>v. v ^ 2) w);
       y \<leftarrow> bop (-) x b;
       Some (y, log0)
     }"

subsection \<open>MaskedWrapperNet\_\<close>

text \<open>
  The constructor builds the label \<open>'wrapper' + net_.label\<close>, which raises when the inner
  label is \<open>None\<close>; it saves the inner module's reduction function and replaces it, on that
  object, by the identity.
\<close>

definition MaskedWrapperNet_init :: "module \<Rightarrow> mask \<Rightarrow> module option" where
  "MaskedWrapperNet_init net m =
     (case label_of net of
        None \<Rightarrow> None
      | Some l \<Rightarrow>
          Some (MaskedWrapperNet_m (Module_init (Some (''wrapper'' @ l)))
                  (set_attrs net ((attrs_of net)\<lparr>sum_density := (\<lambda>pd x. x)\<rparr>))
                  m
                  (sum_density (attrs_of net))))"

subsection \<open>Dispatch, and the composite pipeline\<close>

text \<open>
  Modelled from the spec: \<open>ModuleList_\<close> of \<open>_core\<close>, which is not among the sources. Its
  \<open>forward\<close> applies the modules in list order, threading \<open>(x, log0)\<close> through each; its
  \<open>backward\<close> applies them in reverse list order, threading \<open>(y, log0)\<close> through each
  module's \<open>backward\<close>.
\<close>

fun forward :: "bool \<Rightarrow> module \<Rightarrow> tensor \<Rightarrow> tensor \<Rightarrow> (tensor \<times> tensor) option"
  and forward_list :: "bool \<Rightarrow> module list \<Rightarrow> tensor \<Rightarrow> tensor \<Rightarrow> (tensor \<times> tensor) option"
where
  "forward pd (Identity_m a) x log0 = Identity_forward x log0"
| "forward pd (Clone_m a) x log0 = Clone_forward x log0"
| "forward pd (ScaleNet_m a logw) x log0 = ScaleNet_forward pd logw x log0"
| "forward pd (Tanh_m a) x log0 = Tanh_forward pd a x log0"
| "forward pd (ArcTanh_m a) x log0 = ArcTanh_forward pd a x log0"
| "forward pd (Expit_m a) x log0 = Expit_forward pd a x log0"
| "forward pd (Logit_m a) x log0 = Logit_forward pd a x log0"
| "forward pd (SplineNet_m a sp) x log0 = SplineNet_forward pd a sp x log0"
| "forward pd (SgnBiasNet_m a w) x log0 = SgnBiasNet_forward w x log0"
| "forward pd (DistConvertor_m a nets) x log0 = forward_list pd nets x log0"
| "forward pd (MaskedWrapperNet_m a net m original_net_sum_density) x log0 =
     (case mask_split m x of
        None \<Rightarrow> None
      | Some (x_active, x_frozen) \<Rightarrow>
          (case forward pd net x_active (scalar 0) of
             None \<Rightarrow> None
           | Some (x_active1, logJ_density) \<Rightarrow>
               (case mask_purify m x_active1 0 of
                  None \<Rightarrow> None
                | Some x_active2 \<Rightarrow>
                    (case mask_purify m logJ_density 0 of
                       None \<Rightarrow> None
                     | Some purified \<Rightarrow>
                         (case mask_cat m x_active2 x_frozen of
                            None \<Rightarrow> None
                          | Some y \<Rightarrow>
                              (case bop (+) log0 (original_net_sum_density pd purified) of
                                 None \<Rightarrow> None
                               | Some l \<Rightarrow> Some (y, l)))))))"
| "forward_list pd [] x log0 = Some (x, log0)"
| "forward_list pd (net # nets) x log0 =
     (case forward pd net x log0 of
        None \<Rightarrow> None
      | Some (x1, log1) \<Rightarrow> forward_list pd nets x1 log1)"

fun backward :: "bool \<Rightarrow> module \<Rightarrow> tensor \<Rightarrow> tensor \<Rightarrow> (tensor \<times> tensor) option"
  and backward_list :: "bool \<Rightarrow> module list \<Rightarrow> tensor \<Rightarrow> tensor \<Rightarrow> (tensor \<times> tensor) option"
where
  "backward pd (Identity_m a) x log0 = Identity_backward x log0"
| "backward pd (Clone_m a) x log0 = Clone_backward x log0"
| "backward pd (ScaleNet_m a logw) x log0 = ScaleNet_backward pd logw x log0"
| "backward pd (Tanh_m a) x log0 = Tanh_backward pd a x log0"
| "backward pd (ArcTanh_m a) x log0 = ArcTanh_backward pd a x log0"
| "backward pd (Expit_m a) x log0 = Expit_backward pd a x log0"
| "backward pd (Logit_m a) x log0 = Logit_backward pd a x log0"
| "backward pd (SplineNet_m a sp) x log0 = SplineNet_backward pd a sp x log0"
| "backward pd (SgnBiasNet_m a w) x log0 = SgnBiasNet_backward w x log0"
| "backward pd (DistConvertor_m a nets) x log0 = backward_list pd nets x log0"
| "backward pd (MaskedWrapperNet_m a net m original_net_sum_density) x log0 =
     (case mask_split m x of
        None \<Rightarrow> None
      | Some (x_active, x_frozen) \<Rightarrow>
          (case backward pd net x_active (scalar 0) of
             None \<Rightarrow> None
           | Some (x_active1, logJ_density) \<Rightarrow>
               (case mask_purify m x_active1 0 of
                  None \<Rightarrow> None
                | Some x_active2 \<Rightarrow>
                    (case mask_purify m logJ_density 0 of
                       None \<Rightarrow> None
                     | Some purified \<Rightarrow>
                         (case mask_cat m x_active2 x_frozen of
                            None \<Rightarrow> None
                          | Some y \<Rightarrow>
                              (case bop (+) log0 (original_net_sum_density pd purified) of
                                 None \<Rightarrow> None
                               | Some l \<Rightarrow> Some (y, l)))))))"
| "backward_list pd [] x log0 = Some (x, log0)"
| "backward_list pd (net # nets) x log0 =
     (case backward_list pd nets x log0 of
        None \<Rightarrow> None
      | Some (x1, log1) \<Rightarrow> backward pd net x1 log1)"

subsection \<open>DistConvertor\_\<close>

text \<open>
  \<open>mk\<close> stands for \<open>SplineNet.__init__\<close>, which is not among the sources: from the knot count
  and the keyword arguments it yields the spline, or raises. \<open>u\<close> is the random draw of
  \<open>SgnBiasNet_()\<close>. Passing one keyword both in \<open>**kwargs\<close> and in \<open>**extra\<close> raises a
  \<open>TypeError\<close>.
\<close>

definition DistConvertor_extra :: "bool \<Rightarrow> kwargs" where
  "DistConvertor_extra symmetric =
     (if symmetric
      then [(''xlim'', Lim (1/2) 1), (''ylim'', Lim (1/2) 1), (''extrap'', Extrap [(''left'', ''anti'')])]
      else [(''xlim'', Lim 0 1), (''ylim'', Lim 0 1)])"

definition SplineNet_init ::
  "(int \<Rightarrow> kwargs \<Rightarrow> spline option) \<Rightarrow> int \<Rightarrow> string \<Rightarrow> kwargs \<Rightarrow> kwargs \<Rightarrow> module option" where
  "SplineNet_init mk k l kwargs extra =
     (if \<exists>key \<in> set (map fst kwargs). key \<in> set (map fst extra) then None
      else (case mk k (kwargs @ extra) of
              None \<Rightarrow> None
            | Some s \<Rightarrow>
                Some (SplineNet_m (Module_init (Some l)) \<lparr>knots_len = k, kw = kwargs @ extra, spl = s\<rparr>)))"

definition DistConvertor_nets ::
  "(int \<Rightarrow> kwargs \<Rightarrow> spline option) \<Rightarrow> tensor \<Rightarrow> int \<Rightarrow> bool \<Rightarrow> bool \<Rightarrow> bool \<Rightarrow> bool \<Rightarrow> kwargs
     \<Rightarrow> module list option" where
  "DistConvertor_nets mk u k symmetric sgnbias initial_scale final_scale kwargs =
     (let extra = DistConvertor_extra symmetric in
      case (if k > 1
            then (case SplineNet_init mk k ''spline_'' kwargs extra of
                    None \<Rightarrow> None
                  | Some spline_m \<Rightarrow>
                      Some [Expit_m (Module_init (Some ''expit_'')), spline_m,
                            Logit_m (Module_init (Some ''logit_''))])
            else Some [])
      of None \<Rightarrow> None
       | Some nets0 \<Rightarrow>
           (let nets1 = (if initial_scale then [ScaleNet_init ''scale_''] @ nets0
                         else if final_scale then nets0 @ [ScaleNet_init ''scale_'']
                         else nets0);
                nets2 = (if sgnbias then [SgnBiasNet_init u ''sgnbias_''] @ nets1 else nets1)
            in Some nets2))"

definition DistConvertor_init ::
  "(int \<Rightarrow> kwargs \<Rightarrow> spline option) \<Rightarrow> tensor \<Rightarrow> int \<Rightarrow> bool \<Rightarrow> string \<Rightarrow> bool \<Rightarrow> bool \<Rightarrow> bool \<Rightarrow> kwargs
     \<Rightarrow> module option" where
  "DistConvertor_init mk u k symmetric l sgnbias initial_scale final_scale kwargs =
     map_option (DistConvertor_m (Module_init (Some l)))
       (DistConvertor_nets mk u k symmetric sgnbias initial_scale final_scale kwargs)"

fun first_labelled :: "string \<Rightarrow> module list \<Rightarrow> module option" where
  "first_labelled l [] = None"
| "first_labelled l (net # nets) =
     (if label_of net = Some l then Some net else first_labelled l nets)"

definition get_spline_m :: "module list \<Rightarrow> module option" where
  "get_spline_m nets = first_labelled ''spline_'' nets"

definition get_scale_m :: "module list \<Rightarrow> module option" where
  "get_scale_m nets = first_labelled ''scale_'' nets"

definition get_sgnbias_m :: "module list \<Rightarrow> module option" where
  "get_sgnbias_m nets = first_labelled ''sgnbias_'' nets"

text \<open>\<open>self.get_spline_(cdf)\<close> calls the module found, that is its \<open>forward\<close> with the default
  \<open>log0 = 0\<close>; calling \<open>None\<close> raises.\<close>

definition cdf_mapper :: "bool \<Rightarrow> module list \<Rightarrow> tensor \<Rightarrow> (tensor \<times> tensor) option" where
  "cdf_mapper pd nets cdf =
     (case get_spline_m nets of
        None \<Rightarrow> None
      | Some net \<Rightarrow> forward pd net cdf (scalar 0))"

fun is_ScaleNet :: "module \<Rightarrow> bool" where
  "is_ScaleNet (ScaleNet_m a logw) = True"
| "is_ScaleNet net = False"

text \<open>The logistic function, for stating what \<open>Expit_\<close> computes.\<close>

definition expit :: "real \<Rightarrow> real" where
  "expit v = 1 / (1 + exp (- v))"

text \<open>The shape of a reduced density: that of the sample in per-element mode, the batch
  axis alone in scalar mode.\<close>

definition density_shape :: "bool \<Rightarrow> nat list \<Rightarrow> nat list" where
  "density_shape pd s = (if pd then s else take 1 s)"

subsection \<open>Masks over lanes\<close>

text \<open>
  Modelled from the spec: the mask class, which is not among the sources. A mask partitions
  the elements of a sample into an active and a frozen subset; \<open>split(x)\<close> yields the two
  parts, \<open>purify(values, channel)\<close> zeroes out the lanes that do not belong to the channel
  (channel 0 is the active one), and \<open>cat(active, frozen)\<close> puts the parts together again.
  The spec fixes no more than this contract. \<open>lane_mask\<close> is one mask that meets it: the
  partition is a 0/1 tensor of the sample's shape, the parts keep the shape of the sample,
  with zeros at the lanes of the other part, and \<open>cat\<close> adds them.
\<close>

definition mask_tensor :: "nat list \<Rightarrow> bool list \<Rightarrow> tensor" where
  "mask_tensor s act = \<lparr>shape = s, data = map (\<lambda>b. if b then 1 else 0) act\<rparr>"

definition lane_mask :: "nat list \<Rightarrow> bool list \<Rightarrow> mask" where
  "lane_mask s act =
     (let m = mask_tensor s act; m' = tmap (\<lambda>v. 1 - v) m in
      \<lparr>mask_split = (\<lambda>x. case bop (*) m x of
                             None \<Rightarrow> None
                           | Some x_active \<Rightarrow>
                               (case bop (*) m' x of
                                  None \<Rightarrow> None
                                | Some x_frozen \<Rightarrow> Some (x_active, x_frozen))),
       mask_purify = (\<lambda>v channel. bop (*) v (if channel = 0 then m else m')),
       mask_cat = (\<lambda>x_active x_frozen. bop (+) x_active x_frozen)\<rparr>)"

text \<open>\<open>sel act x\<close> keeps the entries of \<open>x\<close> at the lanes marked in \<open>act\<close> and has zeros
  elsewhere.\<close>

definition sel :: "bool list \<Rightarrow> tensor \<Rightarrow> tensor" where
  "sel act x = \<lparr>shape = shape x, data = map2 (\<lambda>b v. if b then v else 0) act (data x)\<rparr>"




subsection \<open>Domains of the elementwise maps\<close>

text \<open>
  The entries of a tensor are real numbers, and \<open>ln\<close>, \<open>artanh\<close> and the quotient are total on
  them. In floating point, \<open>Logit_.forward\<close> outside \<open>(0, 1)\<close>, \<open>ArcTanh_.forward\<close> outside
  \<open>(-1, 1)\<close> and the logarithm of a spline gradient that is not positive give an infinity or
  a NaN, which no real number stands for. \<open>forward_defined pd net x\<close> and
  \<open>backward_defined pd net x\<close> say that the call on \<open>x\<close> evaluates these maps inside their
  domains only; a composite passes each stage the result of the stage before it, and a wrapper
  passes the inner module the active part.
\<close>

fun forward_defined :: "bool \<Rightarrow> module \<Rightarrow> tensor \<Rightarrow> bool"
  and forward_list_defined :: "bool \<Rightarrow> module list \<Rightarrow> tensor \<Rightarrow> bool"
where
  "forward_defined pd (Identity_m a) x = True"
| "forward_defined pd (Clone_m a) x = True"
| "forward_defined pd (ScaleNet_m a logw) x = True"
| "forward_defined pd (Tanh_m a) x = True"
| "forward_defined pd (ArcTanh_m a) x = list_all (\<lambda>v. \<bar>v\<bar> < 1) (data x)"
| "forward_defined pd (Expit_m a) x = True"
| "forward_defined pd (Logit_m a) x = list_all (\<lambda>v. 0 < v \<and> v < 1) (data x)"
| "forward_defined pd (SplineNet_m a sp) x =
     (case spline_call (spl sp) (if length (spline_shape (spl sp)) > 0 then x else ravel x) of
        None \<Rightarrow> True
      | Some (fx, g) \<Rightarrow> list_all (\<lambda>v. 0 < v) (data g))"
| "forward_defined pd (SgnBiasNet_m a w) x = True"
| "forward_defined pd (DistConvertor_m a nets) x = forward_list_defined pd nets x"
| "forward_defined pd (MaskedWrapperNet_m a net m original_net_sum_density) x =
     (case mask_split m x of
        None \<Rightarrow> True
      | Some (x_active, x_frozen) \<Rightarrow> forward_defined pd net x_active)"
| "forward_list_defined pd [] x = True"
| "forward_list_defined pd (net # nets) x =
     (forward_defined pd net x \<and>
      (case forward pd net x (scalar 0) of
         None \<Rightarrow> True
       | Some (x1, log1) \<Rightarrow> forward_list_defined pd nets x1))"

fun backward_defined :: "bool \<Rightarrow> module \<Rightarrow> tensor \<Rightarrow> bool"
  and backward_list_defined :: "bool \<Rightarrow> module list \<Rightarrow> tensor \<Rightarrow> bool"
where
  "backward_defined pd (Identity_m a) x = True"
| "backward_defined pd (Clone_m a) x = True"
| "backward_defined pd (ScaleNet_m a logw) x = True"
| "backward_defined pd (Tanh_m a) x = list_all (\<lambda>v. \<bar>v\<bar> < 1) (data x)"
| "backward_defined pd (ArcTanh_m a) x = True"
| "backward_defined pd (Expit_m a) x = list_all (\<lambda>v. 0 < v \<and> v < 1) (data x)"
| "backward_defined pd (Logit_m a) x = True"
| "backward_defined pd (SplineNet_m a sp) x =
     (case spline_inverse (spl sp) (if length (spline_shape (spl sp)) > 0 then x else ravel x) of
        None \<Rightarrow> True
      | Some (fx, g) \<Rightarrow> list_all (\<lambda>v. 0 < v) (data g))"
| "backward_defined pd (SgnBiasNet_m a w) x = True"
| "backward_defined pd (DistConvertor_m a nets) x = backward_list_defined pd nets x"
| "backward_defined pd (MaskedWrapperNet_m a net m original_net_sum_density) x =
     (case mask_split m x of
        None \<Rightarrow> True
      | Some (x_active, x_frozen) \<Rightarrow> backward_defined pd net x_active)"
| "backward_list_defined pd [] x = True"
| "backward_list_defined pd (net # nets) x =
     (backward_list_defined pd nets x \<and>
      (case backward_list pd nets x (scalar 0) of
         None \<Rightarrow> True
       | Some (x1, log1) \<Rightarrow> backward_defined pd net x1))"

subsection \<open>Domains and density bookkeeping\<close>

text \<open>An incoming \<open>log0\<close> is a number or has the shape of the density terms;
  \<open>lift_density d l\<close> is \<open>l\<close> broadcast to the shape \<open>d\<close>.\<close>

definition lift_density :: "nat list \<Rightarrow> tensor \<Rightarrow> tensor" where
  "lift_density d l = (if shape l = [] then full d (hd (data l)) else l)"

definition compat :: "nat list \<Rightarrow> tensor \<Rightarrow> bool" where
  "compat d l \<longleftrightarrow> wf_tensor l \<and> (shape l = [] \<or> shape l = d)"

text \<open>A module acts at \<open>x\<close> as a bijection with density term \<open>j\<close>: \<open>forward\<close> adds \<open>j\<close> to any
  compatible \<open>log0\<close>, and \<open>backward\<close> at the image takes it away again.\<close>

definition acts :: "bool \<Rightarrow> module \<Rightarrow> tensor \<Rightarrow> tensor \<Rightarrow> bool" where
  "acts pd net x y \<longleftrightarrow>
     wf_tensor y \<and> shape y = shape x \<and>
     (\<forall>l. compat (density_shape pd (shape x)) l \<longrightarrow>
        (\<exists>l1. forward pd net x l = Some (y, l1) \<and> compat (density_shape pd (shape x)) l1 \<and>
           (\<forall>l2. compat (density_shape pd (shape x)) l2 \<and>
                 lift_density (density_shape pd (shape x)) l2 = lift_density (density_shape pd (shape x)) l1 \<longrightarrow>
              (\<exists>l3. backward pd net y l2 = Some (x, l3) \<and> compat (density_shape pd (shape x)) l3 \<and>
                 lift_density (density_shape pd (shape x)) l3 = lift_density (density_shape pd (shape x)) l))))"

text \<open>What the wrapped spline must provide at \<open>x\<close>: values and strictly positive gradients
  of the shape it was asked at, and an inverse evaluation that returns the point and the
  reciprocal gradients.\<close>

definition spline_contract :: "splinenet \<Rightarrow> tensor \<Rightarrow> bool" where
  "spline_contract sp x \<longleftrightarrow>
     (let inp = (if spline_shape (spl sp) = [] then ravel x else x) in
      case spline_call (spl sp) inp of
        None \<Rightarrow> False
      | Some (y, g) \<Rightarrow>
          wf_tensor y \<and> wf_tensor g \<and> shape y = shape inp \<and> shape g = shape inp \<and>
          list_all (\<lambda>v. 0 < v) (data g) \<and>
          spline_inverse (spl sp) y = Some (inp, tmap inverse g))"

text \<open>The samples on which a module is a bijection: well-formed with a batch axis, inside the
  domain of the map, with the class's own reduction; for a composite, each stage receives a
  valid sample. The masked wrapper is treated apart.\<close>

fun valid :: "bool \<Rightarrow> module \<Rightarrow> tensor \<Rightarrow> bool"
  and valid_list :: "bool \<Rightarrow> module list \<Rightarrow> tensor \<Rightarrow> bool"
where
  "valid pd (Identity_m a) x = (wf_tensor x \<and> shape x \<noteq> [])"
| "valid pd (Clone_m a) x = (wf_tensor x \<and> shape x \<noteq> [])"
| "valid pd (ScaleNet_m a logw) x =
     (wf_tensor x \<and> shape x \<noteq> [] \<and> wf_tensor logw \<and> shape logw = [1])"
| "valid pd (Tanh_m a) x =
     (wf_tensor x \<and> shape x \<noteq> [] \<and> sum_density a = Module_sum_density)"
| "valid pd (ArcTanh_m a) x =
     (wf_tensor x \<and> shape x \<noteq> [] \<and> sum_density a = Module_sum_density \<and>
      list_all (\<lambda>v. \<bar>v\<bar> < 1) (data x))"
| "valid pd (Expit_m a) x =
     (wf_tensor x \<and> shape x \<noteq> [] \<and> sum_density a = Module_sum_density)"
| "valid pd (Logit_m a) x =
     (wf_tensor x \<and> shape x \<noteq> [] \<and> sum_density a = Module_sum_density \<and>
      list_all (\<lambda>v. 0 < v \<and> v < 1) (data x))"
| "valid pd (SplineNet_m a sp) x =
     (wf_tensor x \<and> shape x \<noteq> [] \<and> sum_density a = Module_sum_density \<and> spline_contract sp x)"
| "valid pd (SgnBiasNet_m a w) x =
     (wf_tensor x \<and> shape x \<noteq> [] \<and> wf_tensor w \<and> shape w = [1])"
| "valid pd (DistConvertor_m a nets) x = valid_list pd nets x"
| "valid pd (MaskedWrapperNet_m a net m orig) x = False"
| "valid_list pd [] x = (wf_tensor x \<and> shape x \<noteq> [])"
| "valid_list pd (net # nets) x =
     (valid pd net x \<and>
      (case forward pd net x (scalar 0) of
         None \<Rightarrow> False
       | Some (y, l) \<Rightarrow> valid_list pd nets y))"

definition acts_list :: "bool \<Rightarrow> module list \<Rightarrow> tensor \<Rightarrow> tensor \<Rightarrow> bool" where
  "acts_list pd nets x y \<longleftrightarrow>
     wf_tensor y \<and> shape y = shape x \<and>
     (\<forall>l. compat (density_shape pd (shape x)) l \<longrightarrow>
        (\<exists>l1. forward_list pd nets x l = Some (y, l1) \<and> compat (density_shape pd (shape x)) l1 \<and>
           (\<forall>l2. compat (density_shape pd (shape x)) l2 \<and>
                 lift_density (density_shape pd (shape x)) l2 = lift_density (density_shape pd (shape x)) l1 \<longrightarrow>
              (\<exists>l3. backward_list pd nets y l2 = Some (x, l3) \<and> compat (density_shape pd (shape x)) l3 \<and>
                 lift_density (density_shape pd (shape x)) l3 = lift_density (density_shape pd (shape x)) l))))"

section \<open>Properties\<close>

subsection \<open>Tensor arithmetic\<close>

lemma chunk_bound: "j < n \<Longrightarrow> j * k + k \<le> n * (k::nat)"
proof -
  assume "j < n"
  then have "Suc j \<le> n" by simp
  then have "Suc j * k \<le> n * k" by (rule mult_le_mono1)
  then show ?thesis by simp
qed

lemma length_chunk:
  "length d = n * k \<Longrightarrow> j < n \<Longrightarrow> length (take k (drop (j * k) d)) = k"
  using chunk_bound [of j n k] by simp

lemma concat_chunks:
  "length d = n * k \<Longrightarrow> concat (map (\<lambda>j. take k (drop (j * k) d)) [0..<n]) = d"
proof (induction n arbitrary: d)
  case 0
  then show ?case by simp
next
  case (Suc n)
  have a: "take k (drop (j * k) d) = take k (drop (j * k) (take (n * k) d))" if "j < n" for j
    using chunk_bound [OF that, of k] by (simp add: drop_take min_def)
  have eq: "map (\<lambda>j. take k (drop (j * k) d)) [0..<n] =
            map (\<lambda>j. take k (drop (j * k) (take (n * k) d))) [0..<n]"
    by (rule map_cong) (simp_all add: a)
  have len: "length (take (n * k) d) = n * k" using Suc.prems by simp
  have "concat (map (\<lambda>j. take k (drop (j * k) (take (n * k) d))) [0..<n]) = take (n * k) d"
    by (rule Suc.IH [OF len])
  then have b: "concat (map (\<lambda>j. take k (drop (j * k) d)) [0..<n]) = take (n * k) d"
    by (simp only: eq)
  have c: "take k (drop (n * k) d) = drop (n * k) d" using Suc.prems by simp
  have "concat (map (\<lambda>j. take k (drop (j * k) d)) [0..<Suc n]) =
        concat (map (\<lambda>j. take k (drop (j * k) d)) [0..<n]) @ take k (drop (n * k) d)"
    by simp
  also have "\<dots> = take (n * k) d @ drop (n * k) d" by (simp only: b c)
  finally show ?case by simp
qed

lemma expand_same: "length d = prod_list s \<Longrightarrow> expand s s d = d"
proof (induction s arbitrary: d)
  case Nil
  then show ?case by simp
next
  case (Cons a s)
  from Cons.prems have l: "length d = a * prod_list s" by simp
  have i: "expand s s (take (prod_list s) (drop (j * prod_list s) d)) = take (prod_list s) (drop (j * prod_list s) d)"
    if "j < a" for j
    by (rule Cons.IH) (rule length_chunk [OF l that])
  have eq: "map (\<lambda>j. expand s s (take (prod_list s) (drop (j * prod_list s) d))) [0..<a] =
            map (\<lambda>j. take (prod_list s) (drop (j * prod_list s) d)) [0..<a]"
    by (rule map_cong) (simp_all add: i)
  have "expand (a # s) (a # s) d =
        concat (map (\<lambda>j. expand s s (take (prod_list s) (drop (j * prod_list s) d))) [0..<a])"
    by simp
  also have "\<dots> = concat (map (\<lambda>j. take (prod_list s) (drop (j * prod_list s) d)) [0..<a])"
    by (simp only: eq)
  also have "\<dots> = d" by (rule concat_chunks [OF l])
  finally show ?case .
qed

lemma expand_map: "expand s t (map f d) = map f (expand s t d)"
proof (induction s t d rule: expand.induct)
  case (1 s ss t ts d)
  show ?case
  proof (cases "s = t")
    case True
    have eq: "map (\<lambda>j. expand ss ts (take (prod_list ss) (drop (j * prod_list ss) (map f d)))) [0..<t] =
          map (\<lambda>j. map f (expand ss ts (take (prod_list ss) (drop (j * prod_list ss) d)))) [0..<t]"
    proof (rule map_cong)
      fix x assume "x \<in> set [0..<t]"
      then have "x \<in> set [0..<s]" using True by simp
      from 1(1) [OF True this]
      show "expand ss ts (take (prod_list ss) (drop (x * prod_list ss) (map f d))) =
            map f (expand ss ts (take (prod_list ss) (drop (x * prod_list ss) d)))"
        by (simp add: take_map drop_map)
    qed simp
    have "expand (s # ss) (t # ts) (map f d) =
          concat (map (\<lambda>j. expand ss ts (take (prod_list ss) (drop (j * prod_list ss) (map f d)))) [0..<t])"
      using True by simp
    also have "\<dots> = concat (map (\<lambda>j. map f (expand ss ts (take (prod_list ss) (drop (j * prod_list ss) d)))) [0..<t])"
      by (simp only: eq)
    also have "\<dots> = map f (expand (s # ss) (t # ts) d)"
      using True by (simp add: map_concat comp_def)
    finally show ?thesis .
  next
    case False
    then show ?thesis using 1(2) by (simp add: map_concat)
  qed
qed simp_all

lemma concat_replicate_replicate:
  "concat (replicate a (replicate n c)) = replicate (a * n) c"
  by (induction a) (simp_all add: replicate_add)

lemma expand_ones: "expand (replicate (length t) (Suc 0)) t [c] = replicate (prod_list t) c"
proof (induction t)
  case Nil
  then show ?case by simp
next
  case (Cons a t)
  show ?case
  proof (cases "a = Suc 0")
    case True
    then show ?thesis using Cons by simp
  next
    case False
    then show ?thesis using Cons by (simp add: concat_replicate_replicate)
  qed
qed

lemma broadcast_rev_same: "broadcast_rev s s = Some s"
  by (induction s) simp_all

lemma broadcast_rev_Nil2: "broadcast_rev s [] = Some s"
  by (cases s) simp_all

lemma broadcast_shapes_same: "broadcast_shapes s s = Some s"
  by (simp add: broadcast_shapes_def broadcast_rev_same)

lemma broadcast_shapes_Nil2: "broadcast_shapes s [] = Some s"
  by (simp add: broadcast_shapes_def broadcast_rev_Nil2)

lemma broadcast_shapes_Nil1: "broadcast_shapes [] s = Some s"
  by (simp add: broadcast_shapes_def)

lemma broadcast_shapes_one2: "s \<noteq> [] \<Longrightarrow> broadcast_shapes s [Suc 0] = Some s"
  by (cases s rule: rev_cases) (simp_all add: broadcast_shapes_def broadcast_rev_Nil2)

lemma broadcast_shapes_one1: "s \<noteq> [] \<Longrightarrow> broadcast_shapes [Suc 0] s = Some s"
  by (cases s rule: rev_cases) (simp_all add: broadcast_shapes_def)

lemma broadcast_to_same: "wf_tensor a \<Longrightarrow> broadcast_to (shape a) a = data a"
  by (simp add: broadcast_to_def wf_tensor_def expand_same)

lemma broadcast_to_single:
  assumes "data b = [c]" "shape b = [] \<or> (shape b = [Suc 0] \<and> s \<noteq> [])"
  shows "broadcast_to s b = replicate (prod_list s) c"
proof -
  have "replicate (length s - length (shape b)) (Suc 0) @ shape b = replicate (length s) (Suc 0)"
    using assms(2) by (cases s) (auto simp: replicate_append_same)
  then have "broadcast_to s b = expand (replicate (length s) (Suc 0)) s [c]"
    by (simp add: broadcast_to_def assms(1))
  then show ?thesis by (simp only: expand_ones)
qed

lemma map2_replicate_r: "map2 f d (replicate (length d) c) = map (\<lambda>v. f v c) d"
  by (induction d) simp_all

lemma map2_replicate_l: "map2 f (replicate (length d) c) d = map (f c) d"
  by (induction d) simp_all

lemma bop_same:
  "wf_tensor a \<Longrightarrow> wf_tensor b \<Longrightarrow> shape a = shape b \<Longrightarrow>
   bop f a b = Some \<lparr>shape = shape a, data = map2 f (data a) (data b)\<rparr>"
  using broadcast_to_same [of a] broadcast_to_same [of b]
  by (simp add: bop_def broadcast_shapes_same)

lemma bop_single_r:
  assumes "wf_tensor a" "data b = [c]" "shape b = [] \<or> (shape b = [Suc 0] \<and> shape a \<noteq> [])"
  shows "bop f a b = Some (tmap (\<lambda>v. f v c) a)"
proof -
  have s: "broadcast_shapes (shape a) (shape b) = Some (shape a)"
    using assms(3) by (auto simp: broadcast_shapes_Nil2 broadcast_shapes_one2)
  have "broadcast_to (shape a) b = replicate (length (data a)) c"
    using broadcast_to_single [OF assms(2,3)] assms(1) by (simp add: wf_tensor_def)
  then show ?thesis
    using s broadcast_to_same [OF assms(1)] by (simp add: bop_def tmap_def map2_replicate_r)
qed

lemma bop_single_l:
  assumes "wf_tensor b" "data a = [c]" "shape a = [] \<or> (shape a = [Suc 0] \<and> shape b \<noteq> [])"
  shows "bop f a b = Some (tmap (f c) b)"
proof -
  have s: "broadcast_shapes (shape a) (shape b) = Some (shape b)"
    using assms(3) by (auto simp: broadcast_shapes_Nil1 broadcast_shapes_one1)
  have "broadcast_to (shape b) a = replicate (length (data b)) c"
    using broadcast_to_single [OF assms(2,3)] assms(1) by (simp add: wf_tensor_def)
  then show ?thesis
    using s broadcast_to_same [OF assms(1)] by (simp add: bop_def tmap_def map2_replicate_l)
qed

lemma wf_tmap [simp]: "wf_tensor (tmap f t) = wf_tensor t"
  by (simp add: wf_tensor_def tmap_def)

lemma shape_tmap [simp]: "shape (tmap f t) = shape t"
  by (simp add: tmap_def)

lemma data_tmap [simp]: "data (tmap f t) = map f (data t)"
  by (simp add: tmap_def)

lemma tmap_tmap: "tmap f (tmap g t) = tmap (\<lambda>v. f (g v)) t"
  by (simp add: tmap_def comp_def)

lemma wf_full [simp]: "wf_tensor (full s c)"
  by (simp add: wf_tensor_def full_def)

lemma wf_scalar [simp]: "wf_tensor (scalar c)"
  by (simp add: wf_tensor_def scalar_def)

lemma tensor_eqI: "shape a = shape b \<Longrightarrow> data a = data b \<Longrightarrow> a = (b::tensor)"
  by simp

lemma tmap_id: "(\<And>v. v \<in> set (data t) \<Longrightarrow> f v = v) \<Longrightarrow> tmap f t = t"
  by (rule tensor_eqI) (simp_all add: map_idI)

lemma reshape_ok:
  "length (data y) = length (data x) \<Longrightarrow> wf_tensor x \<Longrightarrow> reshape y (shape x) = Some \<lparr>shape = shape x, data = data y\<rparr>"
  by (simp add: reshape_def wf_tensor_def)

subsection \<open>Assembly of the distribution convertor\<close>

lemma SplineNet_init_ok:
  assumes "mk k (kwargs @ extra) = Some s"
    and "\<forall>key \<in> set (map fst kwargs). key \<notin> set (map fst extra)"
  shows "SplineNet_init mk k l kwargs extra =
     Some (SplineNet_m (Module_init (Some l)) \<lparr>knots_len = k, kw = kwargs @ extra, spl = s\<rparr>)"
  using assms by (auto simp: SplineNet_init_def)

lemma map_of_extra:
  assumes "\<forall>key \<in> set (map fst kwargs). key \<notin> set (map fst extra)" "map_of extra key = Some v"
  shows "map_of (kwargs @ extra) key = Some v"
proof -
  from assms(2) have "key \<in> fst ` set extra" by (force dest: map_of_SomeD)
  with assms(1) have "key \<notin> fst ` set kwargs" by force
  then have "map_of kwargs key = None" by (simp add: map_of_eq_None_iff)
  with assms(2) show ?thesis by (simp add: map_add_def)
qed

text \<open>
  Claim C5. For every \<open>knots_len > 1\<close> for which the spline stage can be constructed, the
  module sequence is the optional \<open>SgnBiasNet_\<close>, the optional initial \<open>ScaleNet_\<close>, then
  \<open>Expit_\<close>, the \<open>SplineNet_\<close> labelled \<open>spline_\<close>, \<open>Logit_\<close>, and the optional final
  \<open>ScaleNet_\<close>. With \<open>symmetric\<close> the spline stage receives \<open>xlim = (0.5, 1)\<close>,
  \<open>ylim = (0.5, 1)\<close> and \<open>extrap = {'left': 'anti'}\<close>, otherwise the unit interval; and
  \<open>SgnBiasNet_\<close>, when requested, is the first module of the list.
\<close>

theorem DistConvertor_assembly:
  assumes "k > 1"
    and "mk k (kwargs @ DistConvertor_extra symmetric) = Some s"
    and "\<forall>key \<in> set (map fst kwargs). key \<notin> set (map fst (DistConvertor_extra symmetric))"
  shows "\<exists>nets spline_m sp.
     DistConvertor_init mk u k symmetric l sgnbias initial_scale final_scale kwargs =
       Some (DistConvertor_m (Module_init (Some l)) nets) \<and>
     spline_m = SplineNet_m (Module_init (Some ''spline_'')) sp \<and>
     sp = \<lparr>knots_len = k, kw = kwargs @ DistConvertor_extra symmetric, spl = s\<rparr> \<and>
     nets = (if sgnbias then [SgnBiasNet_init u ''sgnbias_''] else []) @
            (if initial_scale then [ScaleNet_init ''scale_''] else []) @
            [Expit_m (Module_init (Some ''expit_'')), spline_m, Logit_m (Module_init (Some ''logit_''))] @
            (if final_scale \<and> \<not> initial_scale then [ScaleNet_init ''scale_''] else []) \<and>
     (sgnbias \<longrightarrow> hd nets = SgnBiasNet_init u ''sgnbias_'') \<and>
     (symmetric \<longrightarrow> map_of (kw sp) ''xlim'' = Some (Lim (1/2) 1) \<and>
                    map_of (kw sp) ''ylim'' = Some (Lim (1/2) 1) \<and>
                    map_of (kw sp) ''extrap'' = Some (Extrap [(''left'', ''anti'')])) \<and>
     (\<not> symmetric \<longrightarrow> map_of (kw sp) ''xlim'' = Some (Lim 0 1) \<and>
                    map_of (kw sp) ''ylim'' = Some (Lim 0 1))"
proof -
  let ?extra = "DistConvertor_extra symmetric"
  have sp: "SplineNet_init mk k ''spline_'' kwargs ?extra =
      Some (SplineNet_m (Module_init (Some ''spline_'')) \<lparr>knots_len = k, kw = kwargs @ ?extra, spl = s\<rparr>)"
    using assms(2,3) by (rule SplineNet_init_ok)
  have m: "\<And>key v. map_of ?extra key = Some v \<Longrightarrow> map_of (kwargs @ ?extra) key = Some v"
    using assms(3) by (rule map_of_extra)
  have sym: "symmetric \<Longrightarrow> map_of (kwargs @ ?extra) ''xlim'' = Some (Lim (1/2) 1) \<and>
                    map_of (kwargs @ ?extra) ''ylim'' = Some (Lim (1/2) 1) \<and>
                    map_of (kwargs @ ?extra) ''extrap'' = Some (Extrap [(''left'', ''anti'')])"
    by (intro conjI m) (simp_all add: DistConvertor_extra_def)
  have nsym: "\<not> symmetric \<Longrightarrow> map_of (kwargs @ ?extra) ''xlim'' = Some (Lim 0 1) \<and>
                    map_of (kwargs @ ?extra) ''ylim'' = Some (Lim 0 1)"
    by (intro conjI m) (simp_all add: DistConvertor_extra_def)
  show ?thesis
    using assms(1) sym nsym
    by (simp add: DistConvertor_init_def DistConvertor_nets_def sp Let_def)
qed

theorem DistConvertor_assembly_witness:
  "DistConvertor_init (\<lambda>k kw. Some \<lparr>spline_shape = [], spline_call = (\<lambda>x. Some (x, x)), spline_inverse = (\<lambda>x. Some (x, x))\<rparr>)
      (full [1] (1/2)) 4 True ''dc_'' True True True [] =
   Some (DistConvertor_m (Module_init (Some ''dc_''))
     [SgnBiasNet_init (full [1] (1/2)) ''sgnbias_'', ScaleNet_init ''scale_'',
      Expit_m (Module_init (Some ''expit_'')),
      SplineNet_m (Module_init (Some ''spline_''))
        \<lparr>knots_len = 4, kw = DistConvertor_extra True,
         spl = \<lparr>spline_shape = [], spline_call = (\<lambda>x. Some (x, x)), spline_inverse = (\<lambda>x. Some (x, x))\<rparr>\<rparr>,
      Logit_m (Module_init (Some ''logit_''))])"
proof -
  let ?s = "\<lparr>spline_shape = [], spline_call = (\<lambda>x. Some (x, x)), spline_inverse = (\<lambda>x. Some (x, x))\<rparr>"
  let ?mk = "\<lambda>(k::int) (kw::kwargs). Some ?s"
  have h1: "(4::int) > 1" by simp
  have h2: "?mk 4 ([] @ DistConvertor_extra True) = Some ?s" by simp
  have h3: "\<forall>key \<in> set (map fst ([]::kwargs)). key \<notin> set (map fst (DistConvertor_extra True))" by simp
  from DistConvertor_assembly [OF h1 h2 h3, of "full [1] (1/2)" "''dc_''" True True True]
  show ?thesis by simp
qed

text \<open>
  Claim C10. When \<open>initial_scale\<close> and \<open>final_scale\<close> are both set, the constructed list is
  the one built with \<open>final_scale\<close> unset: the single \<open>ScaleNet_\<close> stands before the
  Expit/Spline/Logit triple (directly after the optional \<open>SgnBiasNet_\<close>), and no constructed
  list holds two \<open>ScaleNet_\<close> stages.
\<close>

theorem scale_options_exclusive:
  "DistConvertor_nets mk u k symmetric sgnbias True True kwargs =
     DistConvertor_nets mk u k symmetric sgnbias True False kwargs \<and>
   (\<forall>nets. DistConvertor_nets mk u k symmetric sgnbias initial_scale final_scale kwargs = Some nets
      \<longrightarrow> length (filter is_ScaleNet nets) \<le> 1) \<and>
   (\<forall>nets. DistConvertor_nets mk u k symmetric sgnbias True True kwargs = Some nets
      \<longrightarrow> (\<exists>post. nets = (if sgnbias then [SgnBiasNet_init u ''sgnbias_''] else []) @
                          [ScaleNet_init ''scale_''] @ post \<and>
                   (post = [] \<or> (\<exists>spline_m. post = [Expit_m (Module_init (Some ''expit_'')), spline_m,
                                                    Logit_m (Module_init (Some ''logit_''))]))))"
  by (auto simp: DistConvertor_nets_def SplineNet_init_def Let_def ScaleNet_init_def SgnBiasNet_init_def
           split: option.splits if_splits)

theorem scale_options_exclusive_witness:
  "DistConvertor_nets (\<lambda>k kw. Some \<lparr>spline_shape = [], spline_call = (\<lambda>x. Some (x, x)), spline_inverse = (\<lambda>x. Some (x, x))\<rparr>)
      (full [1] (1/2)) 4 False False True True [] \<noteq> None \<and>
   length (filter is_ScaleNet (the (DistConvertor_nets (\<lambda>k kw. Some \<lparr>spline_shape = [], spline_call = (\<lambda>x. Some (x, x)), spline_inverse = (\<lambda>x. Some (x, x))\<rparr>)
      (full [1] (1/2)) 4 False False True True []))) \<le> 1"
proof -
  let ?mk = "\<lambda>(k::int) (kw::kwargs). Some \<lparr>spline_shape = [], spline_call = (\<lambda>x. Some (x, x)), spline_inverse = (\<lambda>x. Some (x, x))\<rparr>"
  obtain nets where n: "DistConvertor_nets ?mk (full [1] (1/2)) 4 False False True True [] = Some nets"
    by (simp add: DistConvertor_nets_def SplineNet_init_def DistConvertor_extra_def)
  from scale_options_exclusive [of ?mk "full [1] (1/2)" 4 False False "[]" True True] n
  have "length (filter is_ScaleNet nets) \<le> 1" by blast
  with n show ?thesis by simp
qed

text \<open>
  Claim C6. \<open>DistConvertor_(knots_len=1)\<close> without sign bias and without scale stages holds
  an empty module list, and its \<open>forward\<close> and \<open>backward\<close> return \<open>(x, log0)\<close> for every
  \<open>x\<close> and \<open>log0\<close>.
\<close>

theorem degenerate_convertor_identity:
  "DistConvertor_init mk u 1 symmetric l False False False kwargs =
     Some (DistConvertor_m (Module_init (Some l)) []) \<and>
   forward pd (DistConvertor_m (Module_init (Some l)) []) x log0 = Some (x, log0) \<and>
   backward pd (DistConvertor_m (Module_init (Some l)) []) x log0 = Some (x, log0)"
  by (simp add: DistConvertor_init_def DistConvertor_nets_def)

subsection \<open>Lookup by label\<close>

lemma first_labelled_find: "first_labelled l nets = find (\<lambda>net. label_of net = Some l) nets"
  by (induction nets) auto

text \<open>
  Claim C9. Each of \<open>get_spline_\<close>, \<open>get_scale_\<close> and \<open>get_sgnbias_\<close> returns the first
  module of the list whose label is \<open>spline_\<close>, \<open>scale_\<close> or \<open>sgnbias_\<close>, and \<open>None\<close>
  exactly when no module carries that label; \<open>cdf_mapper\<close> applies the module found by
  \<open>get_spline_\<close> to \<open>cdf\<close> and involves no other module of the list.
\<close>

theorem tagged_lookup:
  "get_spline_m nets = find (\<lambda>net. label_of net = Some ''spline_'') nets \<and>
   get_scale_m nets = find (\<lambda>net. label_of net = Some ''scale_'') nets \<and>
   get_sgnbias_m nets = find (\<lambda>net. label_of net = Some ''sgnbias_'') nets \<and>
   (get_spline_m nets = None \<longleftrightarrow> (\<forall>net \<in> set nets. label_of net \<noteq> Some ''spline_'')) \<and>
   (get_scale_m nets = None \<longleftrightarrow> (\<forall>net \<in> set nets. label_of net \<noteq> Some ''scale_'')) \<and>
   (get_sgnbias_m nets = None \<longleftrightarrow> (\<forall>net \<in> set nets. label_of net \<noteq> Some ''sgnbias_'')) \<and>
   (\<forall>net. get_spline_m nets = Some net \<longrightarrow> cdf_mapper pd nets cdf = forward pd net cdf (scalar 0)) \<and>
   (get_spline_m nets = None \<longrightarrow> cdf_mapper pd nets cdf = None)"
proof -
  have a: "(first_labelled l nets = None) = (\<forall>net \<in> set nets. label_of net \<noteq> Some l)" for l
    by (auto simp: first_labelled_find find_None_iff)
  have b: "get_spline_m nets = None \<longrightarrow> cdf_mapper pd nets cdf = None"
    by (simp add: cdf_mapper_def)
  have c: "\<forall>net. get_spline_m nets = Some net \<longrightarrow> cdf_mapper pd nets cdf = forward pd net cdf (scalar 0)"
    by (simp add: cdf_mapper_def)
  show ?thesis
    using a b c by (simp add: get_spline_m_def get_scale_m_def get_sgnbias_m_def first_labelled_find [symmetric])
qed

theorem tagged_lookup_witness:
  "get_spline_m [ScaleNet_init ''scale_'', Identity_m (Module_init (Some ''spline_''))] =
     Some (Identity_m (Module_init (Some ''spline_''))) \<and>
   get_sgnbias_m [ScaleNet_init ''scale_'', Identity_m (Module_init (Some ''spline_''))] = None \<and>
   cdf_mapper True [ScaleNet_init ''scale_'', Identity_m (Module_init (Some ''spline_''))] (full [1] (1/2)) =
     Some (full [1] (1/2), scalar 0)"
proof -
  let ?nets = "[ScaleNet_init ''scale_'', Identity_m (Module_init (Some ''spline_''))]"
  have l: "label_of (ScaleNet_init ''scale_'') = Some ''scale_''"
    by (simp add: ScaleNet_init_def label_of_def Module_init_def)
  have l': "label_of (Identity_m (Module_init (Some ''spline_''))) = Some ''spline_''"
    by (simp add: label_of_def Module_init_def)
  have g: "get_spline_m ?nets = Some (Identity_m (Module_init (Some ''spline_'')))"
    by (simp add: get_spline_m_def l l')
  have n: "\<forall>net \<in> set ?nets. label_of net \<noteq> Some ''sgnbias_''"
    by (simp add: l l')
  from tagged_lookup [of ?nets True "full [1] (1/2)"] g n
  have "cdf_mapper True ?nets (full [1] (1/2)) =
          forward True (Identity_m (Module_init (Some ''spline_''))) (full [1] (1/2)) (scalar 0)"
    and "get_sgnbias_m ?nets = None"
    by blast+
  with g show ?thesis by (simp add: Identity_forward_def)
qed

subsection \<open>The spline stage\<close>

text \<open>
  Claim C8. \<open>SplineNet_.forward\<close> evaluates the supplied spline at \<open>x\<close> and returns the
  values together with \<open>log0 + reduce(log(grad))\<close>. When the configured spline shape has
  rank zero the evaluator receives the flattened \<open>x\<close> and its values and gradients are given
  the shape of \<open>x\<close> again; otherwise it receives \<open>x\<close> itself and its results are used as they
  are. \<open>SplineNet_.backward\<close> does the same with the inverse evaluation. When the evaluator
  raises, so does the method.
\<close>

theorem SplineNet_evaluation:
  "(spline_shape (spl sp) \<noteq> [] \<longrightarrow>
      (\<forall>y g. spline_call (spl sp) x = Some (y, g) \<longrightarrow>
         SplineNet_forward pd self sp x log0 =
           map_option (Pair y) (bop (+) log0 (sum_density self pd (tmap ln g)))) \<and>
      (\<forall>y g. spline_inverse (spl sp) x = Some (y, g) \<longrightarrow>
         SplineNet_backward pd self sp x log0 =
           map_option (Pair y) (bop (+) log0 (sum_density self pd (tmap ln g))))) \<and>
   (spline_shape (spl sp) = [] \<and> wf_tensor x \<longrightarrow>
      (\<forall>y g. spline_call (spl sp) (ravel x) = Some (y, g) \<and>
             length (data y) = length (data x) \<and> length (data g) = length (data x) \<longrightarrow>
         SplineNet_forward pd self sp x log0 =
           map_option (Pair \<lparr>shape = shape x, data = data y\<rparr>)
             (bop (+) log0 (sum_density self pd (tmap ln \<lparr>shape = shape x, data = data g\<rparr>)))) \<and>
      (\<forall>y g. spline_inverse (spl sp) (ravel x) = Some (y, g) \<and>
             length (data y) = length (data x) \<and> length (data g) = length (data x) \<longrightarrow>
         SplineNet_backward pd self sp x log0 =
           map_option (Pair \<lparr>shape = shape x, data = data y\<rparr>)
             (bop (+) log0 (sum_density self pd (tmap ln \<lparr>shape = shape x, data = data g\<rparr>))))) \<and>
   (spline_call (spl sp) (if spline_shape (spl sp) = [] then ravel x else x) = None \<longrightarrow>
      SplineNet_forward pd self sp x log0 = None) \<and>
   (spline_inverse (spl sp) (if spline_shape (spl sp) = [] then ravel x else x) = None \<longrightarrow>
      SplineNet_backward pd self sp x log0 = None)"
  by (auto simp: SplineNet_forward_def SplineNet_backward_def reshape_ok
           split: option.splits prod.splits Option.bind_splits)

theorem SplineNet_evaluation_witness:
  "SplineNet_forward True (Module_init None)
     \<lparr>knots_len = 4, kw = [],
      spl = \<lparr>spline_shape = [],
             spline_call = (\<lambda>t. Some (tmap (\<lambda>v. 2 * v) t, tmap (\<lambda>v. 2) t)),
             spline_inverse = (\<lambda>t. Some (tmap (\<lambda>v. v / 2) t, tmap (\<lambda>v. 1 / 2) t))\<rparr>\<rparr>
     \<lparr>shape = [1, 2], data = [1, 3]\<rparr> (scalar 0) =
   Some (\<lparr>shape = [1, 2], data = [2, 6]\<rparr>, \<lparr>shape = [1, 2], data = [ln 2, ln 2]\<rparr>)"
proof -
  let ?s = "\<lparr>spline_shape = [],
             spline_call = (\<lambda>t. Some (tmap (\<lambda>v. 2 * v) t, tmap (\<lambda>v. 2) t)),
             spline_inverse = (\<lambda>t. Some (tmap (\<lambda>v. v / 2) t, tmap (\<lambda>v. 1 / 2) t))\<rparr>"
  let ?sp = "\<lparr>knots_len = 4, kw = [], spl = ?s\<rparr>"
  let ?x = "\<lparr>shape = [1, 2], data = [1, 3]\<rparr>"
  let ?y = "tmap (\<lambda>v. 2 * v) (ravel ?x)"
  let ?g = "tmap (\<lambda>v. 2) (ravel ?x)"
  have h: "spline_shape (spl ?sp) = [] \<and> wf_tensor ?x" by (simp add: wf_tensor_def)
  have c: "spline_call (spl ?sp) (ravel ?x) = Some (?y, ?g) \<and>
           length (data ?y) = length (data ?x) \<and> length (data ?g) = length (data ?x)"
    by (simp add: ravel_def)
  from SplineNet_evaluation [of ?sp ?x True "Module_init None" "scalar 0"] h c
  have "SplineNet_forward True (Module_init None) ?sp ?x (scalar 0) =
          map_option (Pair \<lparr>shape = shape ?x, data = data ?y\<rparr>)
             (bop (+) (scalar 0) (sum_density (Module_init None) True (tmap ln \<lparr>shape = shape ?x, data = data ?g\<rparr>)))"
    by blast
  moreover have "bop (+) (scalar 0) \<lparr>shape = [1, 2], data = [ln 2, ln 2]\<rparr> =
                 Some (tmap ((+) 0) \<lparr>shape = [1, 2], data = [ln 2, ln (2::real)]\<rparr>)"
    by (rule bop_single_l) (simp_all add: wf_tensor_def scalar_def)
  ultimately show ?thesis
    by (simp add: Module_init_def Module_sum_density_def tmap_def ravel_def)
qed

subsection \<open>The inverse pairs\<close>

lemma tmap_cong: "(\<And>v. v \<in> set (data t) \<Longrightarrow> f v = g v) \<Longrightarrow> tmap f t = tmap g t"
  by (simp add: tmap_def)

lemma map2_map_map: "map2 f (map g d) (map h d) = map (\<lambda>v. f (g v) (h v)) d"
proof (induction d)
  case Nil
  show ?case by simp
next
  case (Cons a d)
  then show ?case by simp
qed

lemma bop_tmap_tmap: "wf_tensor x \<Longrightarrow> bop f (tmap g x) (tmap h x) = Some (tmap (\<lambda>v. f (g v) (h v)) x)"
  by (simp add: bop_same map2_map_map)

lemma bop_self_tmap: "wf_tensor x \<Longrightarrow> bop f x (tmap h x) = Some (tmap (\<lambda>v. f v (h v)) x)"
  using bop_tmap_tmap [of x f "\<lambda>v. v" h] by (simp add: tmap_id)

lemma expit_pos: "0 < expit v"
  by (simp add: expit_def add_pos_pos)

lemma expit_lt1: "expit v < 1"
  by (simp add: expit_def add_pos_pos)

lemma one_minus_expit: "1 - expit v = exp (- v) * expit v"
proof -
  have "1 + exp (- v) \<noteq> 0" by (smt (verit) exp_gt_zero)
  then show ?thesis by (simp add: expit_def field_simps)
qed

lemma logit_expit: "ln (expit v / (1 - expit v)) = v"
proof -
  have "expit v / (1 - expit v) = 1 / exp (- v)"
    using expit_pos [of v] by (simp add: one_minus_expit)
  also have "\<dots> = exp v" by (simp add: exp_minus field_simps)
  finally show ?thesis by simp
qed

lemma ln_expit_jac: "ln (expit v * (1 - expit v)) = - v + 2 * ln (expit v)"
proof -
  have "expit v * (1 - expit v) = exp (- v) * (expit v * expit v)"
    by (simp add: one_minus_expit)
  then have "ln (expit v * (1 - expit v)) = ln (exp (- v)) + ln (expit v * expit v)"
    using expit_pos [of v] by (simp add: ln_mult)
  also have "\<dots> = - v + 2 * ln (expit v)"
    using expit_pos [of v] by (simp add: ln_mult)
  finally show ?thesis .
qed

lemma expit_logit: "0 < v \<Longrightarrow> v < 1 \<Longrightarrow> expit (ln (v / (1 - v))) = v"
proof -
  assume a: "0 < v" "v < 1"
  then have q: "0 < v / (1 - v)" by simp
  have "expit (ln (v / (1 - v))) = 1 / (1 + 1 / (v / (1 - v)))"
    using q by (simp add: expit_def exp_minus inverse_eq_divide)
  also have "\<dots> = v" using a by (simp add: field_simps)
  finally show ?thesis .
qed

lemma expit_logit_jac:
  "0 < v \<Longrightarrow> v < 1 \<Longrightarrow> - ln (v / (1 - v)) + 2 * ln (expit (ln (v / (1 - v)))) = ln (v * (1 - v))"
proof -
  assume a: "0 < v" "v < 1"
  have "- ln (v / (1 - v)) + 2 * ln (expit (ln (v / (1 - v)))) = - ln (v / (1 - v)) + 2 * ln v"
    by (simp only: expit_logit [OF a])
  also have "\<dots> = ln (v * (1 - v))" using a by (simp add: ln_div ln_mult)
  finally show ?thesis .
qed

lemma tanh_artanh: "\<bar>x\<bar> < 1 \<Longrightarrow> tanh (artanh x) = (x::real)"
proof -
  assume a: "\<bar>x\<bar> < 1"
  then have p: "0 < (1 + x) / (1 - x)" by simp
  have "exp (- 2 * artanh x) = exp (- ln ((1 + x) / (1 - x)))"
    by (simp add: artanh_def)
  also have "\<dots> = (1 - x) / (1 + x)"
    using p by (simp add: exp_minus inverse_eq_divide)
  finally have e: "exp (- 2 * artanh x) = (1 - x) / (1 + x)" .
  have "tanh (artanh x) = (1 - (1 - x) / (1 + x)) / (1 + (1 - x) / (1 + x))"
    by (simp only: tanh_real_altdef e)
  also have "\<dots> = x" using a by (simp add: field_simps)
  finally show ?thesis .
qed

lemma expit_fun: "(\<lambda>v. 1 / (1 + exp (- v))) = expit"
  by (rule ext) (simp add: expit_def)

lemma Tanh_forward_eq:
  "Tanh_forward pd a x l =
     map_option (Pair (tmap tanh x))
       (bop (+) l (tmap (\<lambda>v. - 2 * v) (sum_density a pd (tmap (\<lambda>v. ln (cosh v)) x))))"
  by (simp add: Tanh_forward_def Let_def split: Option.bind_splits)

lemma ArcTanh_forward_eq:
  "ArcTanh_forward pd a x l =
     map_option (Pair (tmap artanh x))
       (bop (+) l (tmap (\<lambda>v. 2 * v) (sum_density a pd (tmap (\<lambda>v. ln (cosh (artanh v))) x))))"
  by (simp add: ArcTanh_forward_def Let_def tmap_tmap split: Option.bind_splits)

lemma Expit_forward_eq:
  "wf_tensor x \<Longrightarrow>
   Expit_forward pd a x l =
     map_option (Pair (tmap expit x))
       (bop (+) l (sum_density a pd (tmap (\<lambda>v. - v + 2 * ln (expit v)) x)))"
  by (simp add: Expit_forward_def Let_def expit_fun bop_tmap_tmap tmap_tmap split: Option.bind_splits)

lemma Logit_forward_eq:
  "wf_tensor x \<Longrightarrow>
   Logit_forward pd a x l =
     map_option (Pair (tmap (\<lambda>v. ln (v / (1 - v))) x))
       (bop (+) l (tmap uminus (sum_density a pd (tmap (\<lambda>v. ln (v * (1 - v))) x))))"
  by (simp add: Logit_forward_def Let_def bop_self_tmap tmap_tmap split: Option.bind_splits)

text \<open>
  Claim C2. The \<open>backward\<close> of \<open>Tanh_\<close>, \<open>ArcTanh_\<close>, \<open>Expit_\<close> and \<open>Logit_\<close> is the
  \<open>forward\<close> of a freshly constructed dual module. In each pair the forward maps invert each
  other (on \<open>(-1, 1)\<close> for \<open>ArcTanh_\<close> and on \<open>(0, 1)\<close> for \<open>Logit_\<close>), and the log-Jacobian
  term that the dual adds at the image point is the negative of the term added at the point
  itself, for either density mode and any reduction function shared by the two modules.
\<close>

theorem inverse_pair_exactness:
  assumes "wf_tensor x" and "sum_density dual = sum_density self"
  shows
   "Tanh_backward pd self x log0 = ArcTanh_forward pd (Module_init None) x log0 \<and>
    ArcTanh_backward pd self x log0 = Tanh_forward pd (Module_init None) x log0 \<and>
    Expit_backward pd self x log0 = Logit_forward pd (Module_init None) x log0 \<and>
    Logit_backward pd self x log0 = Expit_forward pd (Module_init None) x log0 \<and>
    (let j = tmap (\<lambda>v. - 2 * v) (sum_density self pd (tmap (\<lambda>v. ln (cosh v)) x)) in
       Tanh_forward pd self x log0 = map_option (Pair (tmap tanh x)) (bop (+) log0 j) \<and>
       ArcTanh_forward pd dual (tmap tanh x) log1 = map_option (Pair x) (bop (+) log1 (tmap uminus j))) \<and>
    ((\<forall>v \<in> set (data x). \<bar>v\<bar> < 1) \<longrightarrow>
     (let j = tmap (\<lambda>v. 2 * v) (sum_density self pd (tmap (\<lambda>v. ln (cosh (artanh v))) x)) in
       ArcTanh_forward pd self x log0 = map_option (Pair (tmap artanh x)) (bop (+) log0 j) \<and>
       Tanh_forward pd dual (tmap artanh x) log1 = map_option (Pair x) (bop (+) log1 (tmap uminus j)))) \<and>
    (let j = sum_density self pd (tmap (\<lambda>v. - v + 2 * ln (expit v)) x) in
       Expit_forward pd self x log0 = map_option (Pair (tmap expit x)) (bop (+) log0 j) \<and>
       Logit_forward pd dual (tmap expit x) log1 = map_option (Pair x) (bop (+) log1 (tmap uminus j))) \<and>
    ((\<forall>v \<in> set (data x). 0 < v \<and> v < 1) \<longrightarrow>
     (let j = tmap uminus (sum_density self pd (tmap (\<lambda>v. ln (v * (1 - v))) x)) in
       Logit_forward pd self x log0 = map_option (Pair (tmap (\<lambda>v. ln (v / (1 - v))) x)) (bop (+) log0 j) \<and>
       Expit_forward pd dual (tmap (\<lambda>v. ln (v / (1 - v))) x) log1 =
         map_option (Pair x) (bop (+) log1 (tmap uminus j))))"
proof -
  have t1: "tmap artanh (tmap tanh x) = x"
    by (simp add: tmap_tmap tmap_id artanh_tanh_real)
  have t2: "tmap (\<lambda>v. ln (cosh (artanh v))) (tmap tanh x) = tmap (\<lambda>v. ln (cosh v)) x"
    by (simp add: tmap_tmap artanh_tanh_real)
  have ta: "ArcTanh_forward pd dual (tmap tanh x) log1 =
      map_option (Pair x) (bop (+) log1 (tmap uminus (tmap (\<lambda>v. - 2 * v) (sum_density self pd (tmap (\<lambda>v. ln (cosh v)) x)))))"
  proof -
    have "ArcTanh_forward pd dual (tmap tanh x) log1 =
      map_option (Pair x) (bop (+) log1 (tmap (\<lambda>v. 2 * v) (sum_density self pd (tmap (\<lambda>v. ln (cosh v)) x))))"
      by (simp only: ArcTanh_forward_eq t1 t2 assms(2))
    then show ?thesis by (simp add: tmap_tmap)
  qed
  have at: "Tanh_forward pd dual (tmap artanh x) log1 =
      map_option (Pair x) (bop (+) log1 (tmap uminus (tmap (\<lambda>v. 2 * v) (sum_density self pd (tmap (\<lambda>v. ln (cosh (artanh v))) x)))))"
    if "\<forall>v \<in> set (data x). \<bar>v\<bar> < 1"
  proof -
    have i: "tmap tanh (tmap artanh x) = x"
      using that by (simp add: tmap_tmap tmap_id tanh_artanh)
    have j: "tmap (\<lambda>v. ln (cosh v)) (tmap artanh x) = tmap (\<lambda>v. ln (cosh (artanh v))) x"
      by (simp add: tmap_tmap)
    have "Tanh_forward pd dual (tmap artanh x) log1 =
      map_option (Pair x) (bop (+) log1 (tmap (\<lambda>v. - 2 * v) (sum_density self pd (tmap (\<lambda>v. ln (cosh (artanh v))) x))))"
      by (simp only: Tanh_forward_eq i j assms(2))
    then show ?thesis
      by (simp add: tmap_tmap)
  qed
  have e1: "tmap (\<lambda>v. ln (v / (1 - v))) (tmap expit x) = x"
    by (simp add: tmap_tmap logit_expit tmap_id)
  have e2: "tmap (\<lambda>v. ln (v * (1 - v))) (tmap expit x) = tmap (\<lambda>v. - v + 2 * ln (expit v)) x"
    by (simp add: tmap_tmap ln_expit_jac)
  have el: "Logit_forward pd dual (tmap expit x) log1 =
      map_option (Pair x) (bop (+) log1 (tmap uminus (sum_density self pd (tmap (\<lambda>v. - v + 2 * ln (expit v)) x))))"
  proof -
    have w: "wf_tensor (tmap expit x)" using assms(1) by simp
    show ?thesis by (simp only: Logit_forward_eq [OF w] e1 e2 assms(2))
  qed
  have le: "Expit_forward pd dual (tmap (\<lambda>v. ln (v / (1 - v))) x) log1 =
      map_option (Pair x) (bop (+) log1 (tmap uminus (tmap uminus (sum_density self pd (tmap (\<lambda>v. ln (v * (1 - v))) x)))))"
    if d: "\<forall>v \<in> set (data x). 0 < v \<and> v < 1"
  proof -
    have l1: "tmap expit (tmap (\<lambda>v. ln (v / (1 - v))) x) = x"
      using d by (simp add: tmap_tmap expit_logit tmap_id)
    have l2: "tmap (\<lambda>v. - v + 2 * ln (expit v)) (tmap (\<lambda>v. ln (v / (1 - v))) x) = tmap (\<lambda>v. ln (v * (1 - v))) x"
      unfolding tmap_tmap using d by (intro tmap_cong expit_logit_jac) auto
    have w: "wf_tensor (tmap (\<lambda>v. ln (v / (1 - v))) x)" using assms(1) by simp
    have "Expit_forward pd dual (tmap (\<lambda>v. ln (v / (1 - v))) x) log1 =
      map_option (Pair x) (bop (+) log1 (sum_density self pd (tmap (\<lambda>v. ln (v * (1 - v))) x)))"
      by (simp only: Expit_forward_eq [OF w] l1 l2 assms(2))
    then show ?thesis
      by (simp add: tmap_tmap tmap_id)
  qed
  show ?thesis
    using assms(1) ta at el le
    by (simp add: Tanh_backward_def ArcTanh_backward_def Expit_backward_def Logit_backward_def
          Tanh_forward_eq ArcTanh_forward_eq Expit_forward_eq Logit_forward_eq Let_def)
qed

theorem inverse_pair_exactness_witness:
  "Logit_forward True (Module_init None) \<lparr>shape = [1, 2], data = [1/4, 1/2]\<rparr> (scalar 0) =
     Some (tmap (\<lambda>v. ln (v / (1 - v))) \<lparr>shape = [1, 2], data = [1/4, 1/2]\<rparr>,
           \<lparr>shape = [1, 2], data = [- ln (3/16), - ln (1/4)]\<rparr>) \<and>
   Expit_forward True (Module_init None)
       (tmap (\<lambda>v. ln (v / (1 - v))) \<lparr>shape = [1, 2], data = [1/4, 1/2]\<rparr>) (scalar 0) =
     Some (\<lparr>shape = [1, 2], data = [1/4, 1/2]\<rparr>, \<lparr>shape = [1, 2], data = [ln (3/16), ln (1/4)]\<rparr>)"
proof -
  let ?x = "\<lparr>shape = [1, 2], data = [1/4, 1/2]\<rparr>"
  let ?j = "\<lparr>shape = [1, 2], data = [- ln (3/16), - ln (1/4 :: real)]\<rparr>"
  have w: "wf_tensor ?x" by (simp add: wf_tensor_def)
  have s: "sum_density (Module_init None) = sum_density (Module_init None)" ..
  have d: "\<forall>v \<in> set (data ?x). 0 < v \<and> v < 1" by simp
  have j: "tmap uminus (sum_density (Module_init None) True (tmap (\<lambda>v. ln (v * (1 - v))) ?x)) = ?j"
    by (simp add: Module_init_def Module_sum_density_def tmap_def)
  have b: "bop (+) (scalar 0) t = Some t" if "wf_tensor t" for t
    using bop_single_l [of t "scalar 0" 0 "(+)"] that by (simp add: scalar_def tmap_id)
  from inverse_pair_exactness [OF w s, of True "scalar 0" "scalar 0"] d
  have "Logit_forward True (Module_init None) ?x (scalar 0) =
          map_option (Pair (tmap (\<lambda>v. ln (v / (1 - v))) ?x)) (bop (+) (scalar 0) ?j)"
    and "Expit_forward True (Module_init None) (tmap (\<lambda>v. ln (v / (1 - v))) ?x) (scalar 0) =
          map_option (Pair ?x) (bop (+) (scalar 0) (tmap uminus ?j))"
    unfolding Let_def j by blast+
  then show ?thesis by (simp add: b wf_tensor_def tmap_def)
qed

subsection \<open>Shapes of the density terms\<close>

lemma bop_scalar_l: "wf_tensor t \<Longrightarrow> bop f (scalar c) t = Some (tmap (f c) t)"
  by (rule bop_single_l) (simp_all add: scalar_def)

lemma bop_zero_l: "wf_tensor t \<Longrightarrow> bop (+) (scalar 0) t = Some t"
  by (simp add: bop_scalar_l tmap_id)

lemma shape_sum_nonbatch: "shape (sum_nonbatch t) = take 1 (shape t)"
  by (simp add: sum_nonbatch_def split: list.splits)

lemma wf_sum_nonbatch: "wf_tensor t \<Longrightarrow> wf_tensor (sum_nonbatch t)"
  by (simp add: sum_nonbatch_def wf_tensor_def split: list.splits)

lemma shape_Module_sum_density: "shape (Module_sum_density pd t) = density_shape pd (shape t)"
  by (simp add: Module_sum_density_def density_shape_def shape_sum_nonbatch)

lemma wf_Module_sum_density: "wf_tensor t \<Longrightarrow> wf_tensor (Module_sum_density pd t)"
  by (simp add: Module_sum_density_def wf_sum_nonbatch)

lemma tmap_full: "tmap f (full s c) = full s (f c)"
  by (simp add: tmap_def full_def)

lemma shape_full [simp]: "shape (full s c) = s"
  by (simp add: full_def)

lemma ScaleNet_log_jacobian_eq:
  assumes "shape logw = [Suc 0]" "data logw = [w]" "s \<noteq> []"
  shows "ScaleNet_log_jacobian pd logw s =
           Some (full (density_shape pd s) (if pd then w else w * real (prod_list (tl s))))"
proof (cases pd)
  case True
  have "bop (*) logw (full s 1) = Some (tmap ((*) w) (full s 1))"
    by (rule bop_single_l) (simp_all add: assms)
  then show ?thesis using True by (simp add: ScaleNet_log_jacobian_def density_shape_def tmap_full)
next
  case False
  obtain b rest where s: "s = b # rest" using assms(3) by (cases s) auto
  let ?lw = "tmap (\<lambda>v. v * real (prod_list rest)) logw"
  have "bop (*) ?lw (full [b] 1) = Some (tmap ((*) (w * real (prod_list rest))) (full [b] 1))"
    by (rule bop_single_l) (simp_all add: assms)
  then show ?thesis using False s
    by (simp add: ScaleNet_log_jacobian_def density_shape_def tmap_full Let_def)
qed

lemma ScaleNet_forward_zero:
  assumes "wf_tensor x" "shape x \<noteq> []" "shape logw = [Suc 0]" "data logw = [w]"
  shows "ScaleNet_forward pd logw x (scalar 0) =
           Some (tmap (\<lambda>v. v * exp w) x,
                 full (density_shape pd (shape x)) (if pd then w else w * real (prod_list (tl (shape x)))))"
proof -
  have "bop (*) x (tmap exp logw) = Some (tmap (\<lambda>v. v * exp w) x)"
    by (rule bop_single_r) (simp_all add: assms)
  then show ?thesis
    by (simp add: ScaleNet_forward_def ScaleNet_log_jacobian_eq [OF assms(3,4,2)] bop_zero_l)
qed

lemma density_term:
  assumes "wf_tensor t"
  shows "\<exists>j. bop (+) (scalar 0) (tmap f (Module_sum_density pd t)) = Some j \<and>
             shape j = density_shape pd (shape t) \<and> wf_tensor j"
  using assms by (simp add: bop_zero_l wf_Module_sum_density shape_Module_sum_density)

lemma SplineNet_density_term:
  assumes "wf_tensor x" and "sum_density self = Module_sum_density"
    and "spline_call (spl sp) (if spline_shape (spl sp) = [] then ravel x else x) = Some (y, g)"
    and "length (data y) = length (data x)" and "length (data g) = length (data x)"
    and "spline_shape (spl sp) \<noteq> [] \<longrightarrow> shape g = shape x"
  shows "\<exists>y' j. SplineNet_forward pd self sp x (scalar 0) = Some (y', j) \<and>
            shape j = density_shape pd (shape x) \<and> wf_tensor j"
proof -
  let ?g = "\<lparr>shape = shape x, data = data g\<rparr>"
  have wg: "wf_tensor ?g" using assms(1,5) by (simp add: wf_tensor_def)
  have "SplineNet_forward pd self sp x (scalar 0) =
          map_option (Pair (if spline_shape (spl sp) = [] then \<lparr>shape = shape x, data = data y\<rparr> else y))
            (bop (+) (scalar 0) (Module_sum_density pd (tmap ln ?g)))"
  proof (cases "spline_shape (spl sp) = []")
    case True
    then show ?thesis using assms(1,3,4,5)
      by (simp add: SplineNet_forward_def reshape_ok assms(2) split: Option.bind_splits)
  next
    case False
    then have "g = ?g" using assms(6) by simp
    then show ?thesis using False assms(3)
      by (simp add: SplineNet_forward_def assms(2) split: Option.bind_splits)
  qed
  moreover have "\<exists>j. bop (+) (scalar 0) (tmap (\<lambda>v. v) (Module_sum_density pd (tmap ln ?g))) = Some j \<and>
             shape j = density_shape pd (shape (tmap ln ?g)) \<and> wf_tensor j"
    using wg by (intro density_term) simp
  ultimately show ?thesis by (auto simp: tmap_id)
qed

text \<open>
  Claim C7. For a sample \<open>x\<close> with a batch axis and a module with the class's own reduction,
  the log-Jacobian term added to \<open>log0\<close> has the shape of \<open>x\<close> when the density flag is set
  and one entry per batch item when it is not. \<open>ScaleNet_.log_jacobian\<close> is \<open>logw\<close> at every
  position of \<open>x\<close>'s shape in the first mode, and \<open>logw\<close> times the number of non-batch
  elements of \<open>x\<close> for each batch item in the second.
\<close>

theorem density_mode_shape:
  assumes "wf_tensor x" and "shape x \<noteq> []" and "sum_density self = Module_sum_density"
  shows
   "density_shape True (shape x) = shape x \<and>
    density_shape False (shape x) = [hd (shape x)] \<and>
    (shape logw = [1] \<and> data logw = [w] \<longrightarrow>
       ScaleNet_log_jacobian True logw (shape x) = Some (full (shape x) w) \<and>
       ScaleNet_log_jacobian False logw (shape x) =
         Some (full [hd (shape x)] (w * real (prod_list (tl (shape x))))) \<and>
       (\<exists>y. ScaleNet_forward pd logw x (scalar 0) =
              Some (y, full (density_shape pd (shape x))
                         (if pd then w else w * real (prod_list (tl (shape x))))))) \<and>
    (\<exists>y j. Tanh_forward pd self x (scalar 0) = Some (y, j) \<and>
            shape j = density_shape pd (shape x) \<and> wf_tensor j) \<and>
    (\<exists>y j. ArcTanh_forward pd self x (scalar 0) = Some (y, j) \<and>
            shape j = density_shape pd (shape x) \<and> wf_tensor j) \<and>
    (\<exists>y j. Expit_forward pd self x (scalar 0) = Some (y, j) \<and>
            shape j = density_shape pd (shape x) \<and> wf_tensor j) \<and>
    (\<exists>y j. Logit_forward pd self x (scalar 0) = Some (y, j) \<and>
            shape j = density_shape pd (shape x) \<and> wf_tensor j) \<and>
    (\<forall>y g. spline_call (spl sp) (if spline_shape (spl sp) = [] then ravel x else x) = Some (y, g) \<and>
           length (data y) = length (data x) \<and> length (data g) = length (data x) \<and>
           (spline_shape (spl sp) \<noteq> [] \<longrightarrow> shape g = shape x) \<longrightarrow>
       (\<exists>y' j. SplineNet_forward pd self sp x (scalar 0) = Some (y', j) \<and>
            shape j = density_shape pd (shape x) \<and> wf_tensor j))"
proof -
  obtain b rest where s: "shape x = b # rest" using assms(2) by (cases "shape x") auto
  have d: "density_shape True (shape x) = shape x \<and> density_shape False (shape x) = [hd (shape x)]"
    by (simp add: density_shape_def s)
  have sc: "shape logw = [1] \<and> data logw = [w] \<longrightarrow>
       ScaleNet_log_jacobian True logw (shape x) = Some (full (shape x) w) \<and>
       ScaleNet_log_jacobian False logw (shape x) =
         Some (full [hd (shape x)] (w * real (prod_list (tl (shape x))))) \<and>
       (\<exists>y. ScaleNet_forward pd logw x (scalar 0) =
              Some (y, full (density_shape pd (shape x))
                         (if pd then w else w * real (prod_list (tl (shape x))))))"
    using assms(1,2) d
    by (auto simp: ScaleNet_log_jacobian_eq ScaleNet_forward_zero simp del: One_nat_def)
  have t: "\<exists>y j. Tanh_forward pd self x (scalar 0) = Some (y, j) \<and>
            shape j = density_shape pd (shape x) \<and> wf_tensor j"
    using density_term [of "tmap (\<lambda>v. ln (cosh v)) x" "\<lambda>v. - 2 * v" pd] assms(1)
    by (auto simp: Tanh_forward_eq assms(3))
  have a: "\<exists>y j. ArcTanh_forward pd self x (scalar 0) = Some (y, j) \<and>
            shape j = density_shape pd (shape x) \<and> wf_tensor j"
    using density_term [of "tmap (\<lambda>v. ln (cosh (artanh v))) x" "\<lambda>v. 2 * v" pd] assms(1)
    by (auto simp: ArcTanh_forward_eq assms(3))
  have e: "\<exists>y j. Expit_forward pd self x (scalar 0) = Some (y, j) \<and>
            shape j = density_shape pd (shape x) \<and> wf_tensor j"
    using density_term [of "tmap (\<lambda>v. - v + 2 * ln (expit v)) x" "\<lambda>v. v" pd] assms(1)
    by (auto simp: Expit_forward_eq assms(3) tmap_id)
  have l: "\<exists>y j. Logit_forward pd self x (scalar 0) = Some (y, j) \<and>
            shape j = density_shape pd (shape x) \<and> wf_tensor j"
    using density_term [of "tmap (\<lambda>v. ln (v * (1 - v))) x" uminus pd] assms(1)
    by (auto simp: Logit_forward_eq assms(3))
  have sp: "\<forall>y g. spline_call (spl sp) (if spline_shape (spl sp) = [] then ravel x else x) = Some (y, g) \<and>
           length (data y) = length (data x) \<and> length (data g) = length (data x) \<and>
           (spline_shape (spl sp) \<noteq> [] \<longrightarrow> shape g = shape x) \<longrightarrow>
       (\<exists>y' j. SplineNet_forward pd self sp x (scalar 0) = Some (y', j) \<and>
            shape j = density_shape pd (shape x) \<and> wf_tensor j)"
    using SplineNet_density_term [OF assms(1,3)] by blast
  from d sc t a e l sp show ?thesis by blast
qed

theorem density_mode_shape_witness:
  "ScaleNet_log_jacobian True (full [1] (1/2)) [2, 3] = Some (full [2, 3] (1/2)) \<and>
   ScaleNet_log_jacobian False (full [1] (1/2)) [2, 3] = Some (full [2] (3/2)) \<and>
   (\<exists>y j. Tanh_forward False (Module_init None) \<lparr>shape = [2, 3], data = [1, 2, 3, 4, 5, 6]\<rparr> (scalar 0) =
             Some (y, j) \<and> shape j = [2])"
proof -
  let ?x = "\<lparr>shape = [2, 3], data = [1, 2, 3, 4, 5, 6]\<rparr>"
  have w: "wf_tensor ?x" by (simp add: wf_tensor_def)
  have n: "shape ?x \<noteq> []" by simp
  have s: "sum_density (Module_init None) = Module_sum_density" by (simp add: Module_init_def)
  have l: "shape (full [1] (1/2)) = [1] \<and> data (full [1] (1/2)) = [1/2]" by (simp add: full_def)
  from density_mode_shape [OF w n s, where logw = "full [1] (1/2)" and w = "1/2" and pd = False
      and sp = "\<lparr>knots_len = 4, kw = [], spl = \<lparr>spline_shape = [], spline_call = (\<lambda>t. None),
                 spline_inverse = (\<lambda>t. None)\<rparr>\<rparr>"] l
  show ?thesis by auto
qed

subsection \<open>The masked wrapper\<close>

text \<open>
  Claim C4. The constructor saves the inner module's reduction function and replaces it by
  the identity on the wrapped object. The replacement does not reach a dual module that the
  inner module constructs afresh: with the density flag unset, \<open>Tanh_.backward\<close> under the
  wrapper returns a density that \<open>ArcTanh_()\<close> has already summed over the non-batch axes, so the
  reduction precedes the purification, whereas \<open>Tanh_.forward\<close> returns the per-element
  density. For a sample of shape \<open>(2, 3)\<close> the reduced density has shape \<open>(2)\<close>, which a lane
  mask of shape \<open>(2, 3)\<close> cannot purify.
\<close>

theorem wrapper_backward_density_reduced:
  "MaskedWrapperNet_init (Tanh_m (Module_init (Some ''tanh_''))) (lane_mask [2, 3] [True, False, False, True, False, False]) =
     Some (MaskedWrapperNet_m (Module_init (Some ''wrappertanh_''))
            (Tanh_m \<lparr>label = Some ''tanh_'', sum_density = (\<lambda>pd x. x)\<rparr>)
            (lane_mask [2, 3] [True, False, False, True, False, False])
            Module_sum_density) \<and>
   (\<exists>y j. forward False (Tanh_m \<lparr>label = Some ''tanh_'', sum_density = (\<lambda>pd x. x)\<rparr>)
             \<lparr>shape = [2, 3], data = [1/2, 0, 0, 1/4, 0, 0]\<rparr> (scalar 0) = Some (y, j) \<and>
           shape j = [2, 3]) \<and>
   (\<exists>y j. backward False (Tanh_m \<lparr>label = Some ''tanh_'', sum_density = (\<lambda>pd x. x)\<rparr>)
             \<lparr>shape = [2, 3], data = [1/2, 0, 0, 1/4, 0, 0]\<rparr> (scalar 0) = Some (y, j) \<and>
           shape j = [2] \<and>
           mask_purify (lane_mask [2, 3] [True, False, False, True, False, False]) j 0 = None)"
proof -
  let ?x = "\<lparr>shape = [2, 3], data = [1/2, 0, 0, 1/4, 0, 0]\<rparr>"
  have w: "wf_tensor ?x" by (simp add: wf_tensor_def)
  have i: "MaskedWrapperNet_init (Tanh_m (Module_init (Some ''tanh_''))) m =
     Some (MaskedWrapperNet_m (Module_init (Some ''wrappertanh_''))
            (Tanh_m \<lparr>label = Some ''tanh_'', sum_density = (\<lambda>pd x. x)\<rparr>) m Module_sum_density)" for m
    by (simp add: MaskedWrapperNet_init_def label_of_def Module_init_def)
  have f: "\<exists>y j. forward False (Tanh_m \<lparr>label = Some ''tanh_'', sum_density = (\<lambda>pd x. x)\<rparr>) ?x (scalar 0) = Some (y, j) \<and>
           shape j = [2, 3]"
    using w by (simp add: Tanh_forward_eq bop_zero_l)
  have b: "\<exists>y j. backward False (Tanh_m \<lparr>label = Some ''tanh_'', sum_density = (\<lambda>pd x. x)\<rparr>) ?x (scalar 0) = Some (y, j) \<and>
           shape j = [2] \<and>
           mask_purify (lane_mask [2, 3] [True, False, False, True, False, False]) j 0 = None"
  proof -
    let ?d = "tmap (\<lambda>v. 2 * v) (Module_sum_density False (tmap (\<lambda>v. ln (cosh (artanh v))) ?x))"
    have wd: "wf_tensor ?d" using w by (simp add: wf_Module_sum_density)
    have sd: "shape ?d = [2]" by (simp add: shape_Module_sum_density density_shape_def)
    have "backward False (Tanh_m \<lparr>label = Some ''tanh_'', sum_density = (\<lambda>pd x. x)\<rparr>) ?x (scalar 0) =
            Some (tmap artanh ?x, ?d)"
      using wd by (simp add: Tanh_backward_def ArcTanh_forward_eq Module_init_def bop_zero_l)
    moreover have "mask_purify (lane_mask [2, 3] [True, False, False, True, False, False]) ?d 0 = None"
      by (simp add: lane_mask_def Let_def bop_def mask_tensor_def broadcast_shapes_def
            shape_Module_sum_density density_shape_def)
    ultimately show ?thesis using sd by blast
  qed
  from i f b show ?thesis by blast
qed

lemma map2_mask_l:
  "map2 (*) (map (\<lambda>b. if b then 1 else 0) act) d = map2 (\<lambda>b v. if b then v else (0::real)) act d"
  by (induction act arbitrary: d) (auto split: list.splits simp: zip_Cons1)

lemma map2_mask_r:
  "map2 (*) d (map (\<lambda>b. if b then 1 else 0) act) = map2 (\<lambda>b v. if b then v else (0::real)) act d"
proof (induction act arbitrary: d)
  case Nil
  show ?case by simp
next
  case (Cons b act)
  show ?case by (cases d) (simp_all add: Cons)
qed

lemma map2_mask_not:
  "map2 (*) (map ((-) 1 \<circ> (\<lambda>b. if b then 1 else 0)) act) d =
   map2 (\<lambda>b v. if b then v else (0::real)) (map Not act) d"
  by (rule nth_equalityI) auto

lemma wf_mask_tensor: "length act = prod_list s \<Longrightarrow> wf_tensor (mask_tensor s act)"
  by (simp add: wf_tensor_def mask_tensor_def)

lemma lane_split:
  assumes "wf_tensor x" "shape x = s" "length act = prod_list s"
  shows "mask_split (lane_mask s act) x = Some (sel act x, sel (map Not act) x)"
proof -
  let ?m = "mask_tensor s act"
  have wm: "wf_tensor ?m" using assms(3) by (rule wf_mask_tensor)
  have 1: "bop (*) ?m x = Some (sel act x)"
    using bop_same [OF wm assms(1), of "(*)"] assms(2)
    by (simp add: mask_tensor_def sel_def map2_mask_l)
  have 2: "bop (*) (tmap (\<lambda>v. 1 - v) ?m) x = Some (sel (map Not act) x)"
    using bop_same [of "tmap (\<lambda>v. 1 - v) ?m" x "(*)"] wm assms(1,2)
    by (simp add: mask_tensor_def sel_def map2_mask_not)
  show ?thesis by (simp add: lane_mask_def Let_def 1 2)
qed

lemma lane_purify:
  assumes "wf_tensor v" "shape v = s" "length act = prod_list s"
  shows "mask_purify (lane_mask s act) v 0 = Some (sel act v)"
proof -
  let ?m = "mask_tensor s act"
  have wm: "wf_tensor ?m" using assms(3) by (rule wf_mask_tensor)
  have "bop (*) v ?m = Some (sel act v)"
    using bop_same [OF assms(1) wm, of "(*)"] assms(2)
    by (simp add: mask_tensor_def sel_def map2_mask_r)
  then show ?thesis by (simp add: lane_mask_def Let_def)
qed

lemma shape_sel [simp]: "shape (sel act x) = shape x"
  by (simp add: sel_def)

lemma wf_sel: "wf_tensor x \<Longrightarrow> length act = length (data x) \<Longrightarrow> wf_tensor (sel act x)"
  by (simp add: sel_def wf_tensor_def)

lemma data_sel_nth:
  "i < length act \<Longrightarrow> i < length (data x) \<Longrightarrow> data (sel act x) ! i = (if act ! i then data x ! i else 0)"
  by (simp add: sel_def)

lemma length_data_sel: "length (data (sel act x)) = min (length act) (length (data x))"
  by (simp add: sel_def)

lemma lane_cat:
  assumes "wf_tensor a" "wf_tensor f" "shape a = shape f"
  shows "mask_cat (lane_mask s act) a f = Some \<lparr>shape = shape a, data = map2 (+) (data a) (data f)\<rparr>"
  using bop_same [OF assms, of "(+)"] by (simp add: lane_mask_def Let_def)

lemma frame_nth:
  assumes "length act = n" "length (data y1) = n" "length (data x) = n" "i < n"
  shows "map2 (+) (data (sel act y1)) (data (sel (map Not act) x)) ! i =
           (if act ! i then data y1 ! i else data x ! i)"
  using assms by (simp add: sel_def)

lemma frame_length:
  assumes "length act = n" "length (data y1) = n" "length (data x) = n"
  shows "length (map2 (+) (data (sel act y1)) (data (sel (map Not act) x))) = n"
  using assms by (simp add: sel_def)













subsection \<open>Round trip through the masked wrapper\<close>

lemma wrapper_forward_eval:
  assumes "wf_tensor x" "shape x = s" "length act = prod_list s"
    and "forward pd net (sel act x) (scalar 0) = Some (y1, jd)"
    and "wf_tensor y1" "shape y1 = s"
  shows "forward pd (MaskedWrapperNet_m a net (lane_mask s act) orig) x log0 =
     (case mask_purify (lane_mask s act) jd 0 of
        None \<Rightarrow> None
      | Some purified \<Rightarrow>
          map_option (Pair \<lparr>shape = s, data = map2 (+) (data (sel act y1)) (data (sel (map Not act) x))\<rparr>)
            (bop (+) log0 (orig pd purified)))"
proof -
  have n: "length (data x) = prod_list s" "length (data y1) = prod_list s"
    using assms by (simp_all add: wf_tensor_def)
  have c: "mask_cat (lane_mask s act) (sel act y1) (sel (map Not act) x) =
           Some \<lparr>shape = s, data = map2 (+) (data (sel act y1)) (data (sel (map Not act) x))\<rparr>"
    using lane_cat [of "sel act y1" "sel (map Not act) x" s act] assms n
    by (simp add: wf_sel)
  show ?thesis
    by (simp add: lane_split [OF assms(1,2,3)] assms(4) lane_purify [OF assms(5,6,3)] c
          split: option.splits)
qed

lemma wrapper_backward_eval:
  assumes "wf_tensor x" "shape x = s" "length act = prod_list s"
    and "backward pd net (sel act x) (scalar 0) = Some (y1, jd)"
    and "wf_tensor y1" "shape y1 = s"
  shows "backward pd (MaskedWrapperNet_m a net (lane_mask s act) orig) x log0 =
     (case mask_purify (lane_mask s act) jd 0 of
        None \<Rightarrow> None
      | Some purified \<Rightarrow>
          map_option (Pair \<lparr>shape = s, data = map2 (+) (data (sel act y1)) (data (sel (map Not act) x))\<rparr>)
            (bop (+) log0 (orig pd purified)))"
proof -
  have n: "length (data x) = prod_list s" "length (data y1) = prod_list s"
    using assms by (simp_all add: wf_tensor_def)
  have c: "mask_cat (lane_mask s act) (sel act y1) (sel (map Not act) x) =
           Some \<lparr>shape = s, data = map2 (+) (data (sel act y1)) (data (sel (map Not act) x))\<rparr>"
    using lane_cat [of "sel act y1" "sel (map Not act) x" s act] assms n
    by (simp add: wf_sel)
  show ?thesis
    by (simp add: lane_split [OF assms(1,2,3)] assms(4) lane_purify [OF assms(5,6,3)] c
          split: option.splits)
qed

text \<open>
  Every module other than the wrapper is a bijection on its valid samples: \<open>backward\<close> applied
  to the result of \<open>forward\<close> returns the sample, and the density returned is \<open>log0\<close> again, up
  to broadcasting to the shape of the density terms. The same holds for the wrapper when the
  calls of the inner module act lane by lane and return per-element densities.
\<close>

lemma compat_scalar [simp]: "compat d (scalar c)"
  by (simp add: compat_def scalar_def wf_tensor_def)

lemma wf_lift: "compat d l \<Longrightarrow> wf_tensor (lift_density d l)"
  by (auto simp: compat_def lift_density_def)

lemma shape_lift: "compat d l \<Longrightarrow> d \<noteq> [] \<Longrightarrow> shape (lift_density d l) = d"
  by (auto simp: compat_def lift_density_def)

lemma length_lift: "compat d l \<Longrightarrow> d \<noteq> [] \<Longrightarrow> length (data (lift_density d l)) = prod_list d"
  using wf_lift [of d l] shape_lift [of d l] by (simp add: wf_tensor_def)

lemma lift_idem: "d \<noteq> [] \<Longrightarrow> shape l = d \<Longrightarrow> lift_density d l = l"
  by (simp add: lift_density_def)

lemma bop_compat:
  assumes "compat d l" "wf_tensor j" "shape j = d" "d \<noteq> []"
  shows "bop f l j = Some \<lparr>shape = d, data = map2 f (data (lift_density d l)) (data j)\<rparr>"
proof (cases "shape l = []")
  case True
  with assms(1) obtain c where c: "data l = [c]"
    by (cases "data l") (auto simp: compat_def wf_tensor_def)
  have b: "bop f l j = Some (tmap (f c) j)"
    by (rule bop_single_l) (simp_all add: assms True c)
  have n: "length (data j) = prod_list d" using assms(2,3) by (simp add: wf_tensor_def)
  have "data (lift_density d l) = replicate (length (data j)) c"
    using True c n by (simp add: lift_density_def full_def)
  then have "map2 f (data (lift_density d l)) (data j) = map (f c) (data j)"
    by (simp only: map2_replicate_l)
  then show ?thesis
    using b assms(3) by (simp add: tmap_def)
next
  case False
  with assms(1) have s: "shape l = d" "wf_tensor l" by (auto simp: compat_def)
  show ?thesis
    using bop_same [OF s(2) assms(2), of f] s(1) assms(3) False by (simp add: lift_density_def)
qed

lemma map2_add_sub: "length a = length b \<Longrightarrow> map2 (-) (map2 (+) a b) b = (a :: real list)"
  by (induction a b rule: list_induct2) simp_all

lemma map2_add_neg: "length a = length b \<Longrightarrow> map2 (+) (map2 (+) a b) (map uminus b) = (a :: real list)"
  by (induction a b rule: list_induct2) simp_all

lemma density_shape_nonempty: "s \<noteq> [] \<Longrightarrow> density_shape pd s \<noteq> []"
  by (cases s) (simp_all add: density_shape_def)

lemma acts_density_free:
  assumes "wf_tensor x" "wf_tensor y" "shape y = shape x"
    and "\<And>l. forward pd net x l = Some (y, l)" and "\<And>l. backward pd net y l = Some (x, l)"
  shows "acts pd net x y"
  using assms by (simp add: acts_def)

lemma acts_density:
  assumes "wf_tensor x" "shape x \<noteq> []" "wf_tensor y" "shape y = shape x"
    and "wf_tensor j" "shape j = density_shape pd (shape x)"
    and "\<And>l. forward pd net x l = map_option (Pair y) (bop (+) l j)"
    and "\<And>l. backward pd net y l = map_option (Pair x) (bop (+) l (tmap uminus j)) \<or>
             backward pd net y l = map_option (Pair x) (bop (-) l j)"
  shows "acts pd net x y"
proof -
  let ?d = "density_shape pd (shape x)"
  have dn: "?d \<noteq> []" using assms(2) by (rule density_shape_nonempty)
  have lj: "length (data j) = prod_list ?d" using assms(5,6) by (simp add: wf_tensor_def)
  {
    fix l assume c: "compat ?d l"
    let ?l1 = "\<lparr>shape = ?d, data = map2 (+) (data (lift_density ?d l)) (data j)\<rparr>"
    have ll: "length (data (lift_density ?d l)) = prod_list ?d" using c dn by (rule length_lift)
    have f: "forward pd net x l = Some (y, ?l1)"
      by (simp add: assms(7) bop_compat [OF c assms(5,6) dn])
    have c1: "compat ?d ?l1" using ll lj by (simp add: compat_def wf_tensor_def)
    {
      fix l2 assume c2: "compat ?d l2" and e: "lift_density ?d l2 = lift_density ?d ?l1"
      have e': "lift_density ?d l2 = ?l1" using e dn by (simp add: lift_density_def)
      let ?l3 = "\<lparr>shape = ?d, data = data (lift_density ?d l)\<rparr>"
      have "bop (+) l2 (tmap uminus j) = Some ?l3"
        using bop_compat [OF c2, of "tmap uminus j" "(+)"] assms(5,6) dn ll lj
        by (simp add: e' map2_add_neg)
      moreover have "bop (-) l2 j = Some ?l3"
        using bop_compat [OF c2 assms(5,6) dn, of "(-)"] ll lj
        by (simp add: e' map2_add_sub)
      ultimately have b: "backward pd net y l2 = Some (x, ?l3)"
        using assms(8) [of l2] by (elim disjE) simp_all
      have l3: "?l3 = lift_density ?d l"
        using shape_lift [OF c dn] by simp
      have "compat ?d (lift_density ?d l)"
        using wf_lift [OF c] shape_lift [OF c dn] by (simp add: compat_def)
      moreover have "lift_density ?d (lift_density ?d l) = lift_density ?d l"
        using dn shape_lift [OF c dn] by (rule lift_idem)
      ultimately have "compat ?d ?l3 \<and> lift_density ?d ?l3 = lift_density ?d l"
        by (simp only: l3 simp_thms)
      with b have "\<exists>l3. backward pd net y l2 = Some (x, l3) \<and> compat ?d l3 \<and>
                 lift_density ?d l3 = lift_density ?d l" by blast
    }
    with f c1 have "\<exists>l1. forward pd net x l = Some (y, l1) \<and> compat ?d l1 \<and>
           (\<forall>l2. compat ?d l2 \<and> lift_density ?d l2 = lift_density ?d l1 \<longrightarrow>
              (\<exists>l3. backward pd net y l2 = Some (x, l3) \<and> compat ?d l3 \<and>
                 lift_density ?d l3 = lift_density ?d l))" by blast
  }
  then show ?thesis using assms(3,4) by (simp add: acts_def)
qed

lemma sgn_bias: "sgn (v + sgn v * c\<^sup>2) = sgn (v::real)"
proof -
  have c: "0 \<le> c\<^sup>2" by simp
  consider "v < 0" | "v = 0" | "0 < v" by linarith
  then show ?thesis
  proof cases
    case 1
    have "v - c\<^sup>2 < 0" using 1 zero_le_power2 [of c] by linarith
    with 1 have "v + sgn v * c\<^sup>2 < 0" by (simp add: sgn_if)
    with 1 show ?thesis by (simp add: sgn_if)
  next
    case 2
    then show ?thesis by simp
  next
    case 3
    have "0 < v + c\<^sup>2" using 3 zero_le_power2 [of c] by linarith
    with 3 have "0 < v + sgn v * c\<^sup>2" by (simp add: sgn_if)
    with 3 show ?thesis by (simp add: sgn_if)
  qed
qed

lemma SgnBiasNet_forward_eq:
  assumes "wf_tensor x" "shape x \<noteq> []" "shape w = [Suc 0]" "data w = [c]"
  shows "SgnBiasNet_forward w x l = Some (tmap (\<lambda>v. v + sgn v * c\<^sup>2) x, l)"
proof -
  have "bop (*) (tmap sgn x) (tmap (\<lambda>v. v\<^sup>2) w) = Some (tmap (\<lambda>v. v * c\<^sup>2) (tmap sgn x))"
    by (rule bop_single_r) (simp_all add: assms)
  then show ?thesis
    using assms(1) by (simp add: SgnBiasNet_forward_def tmap_tmap bop_self_tmap)
qed

lemma SgnBiasNet_backward_eq:
  assumes "wf_tensor x" "shape x \<noteq> []" "shape w = [Suc 0]" "data w = [c]"
  shows "SgnBiasNet_backward w x l = Some (tmap (\<lambda>v. v - sgn v * c\<^sup>2) x, l)"
proof -
  have "bop (*) (tmap sgn x) (tmap (\<lambda>v. v\<^sup>2) w) = Some (tmap (\<lambda>v. v * c\<^sup>2) (tmap sgn x))"
    by (rule bop_single_r) (simp_all add: assms)
  then show ?thesis
    using assms(1) by (simp add: SgnBiasNet_backward_def tmap_tmap bop_self_tmap)
qed

lemma acts_Identity: "wf_tensor x \<Longrightarrow> acts pd (Identity_m a) x x"
  by (rule acts_density_free) (simp_all add: Identity_forward_def Identity_backward_def)

lemma acts_Clone: "wf_tensor x \<Longrightarrow> acts pd (Clone_m a) x x"
  by (rule acts_density_free) (simp_all add: Clone_forward_def Clone_backward_def)

lemma acts_SgnBiasNet:
  assumes "wf_tensor x" "shape x \<noteq> []" "shape w = [Suc 0]" "data w = [c]"
  shows "acts pd (SgnBiasNet_m a w) x (tmap (\<lambda>v. v + sgn v * c\<^sup>2) x)"
proof (rule acts_density_free)
  let ?y = "tmap (\<lambda>v. v + sgn v * c\<^sup>2) x"
  show "wf_tensor x" by (rule assms(1))
  show "wf_tensor ?y" using assms(1) by simp
  show "shape ?y = shape x" by simp
  show "forward pd (SgnBiasNet_m a w) x l = Some (?y, l)" for l
    by (simp add: SgnBiasNet_forward_eq [OF assms])
  have "tmap (\<lambda>v. v - sgn v * c\<^sup>2) ?y = x"
    by (simp add: tmap_tmap sgn_bias tmap_id)
  moreover have "SgnBiasNet_backward w ?y l = Some (tmap (\<lambda>v. v - sgn v * c\<^sup>2) ?y, l)" for l
    by (rule SgnBiasNet_backward_eq) (simp_all add: assms)
  ultimately show "backward pd (SgnBiasNet_m a w) ?y l = Some (x, l)" for l
    by simp
qed

lemma ScaleNet_forward_eq:
  assumes "wf_tensor x" "shape x \<noteq> []" "shape logw = [Suc 0]" "data logw = [w]"
  shows "ScaleNet_forward pd logw x l =
           map_option (Pair (tmap (\<lambda>v. v * exp w) x))
             (bop (+) l (full (density_shape pd (shape x)) (if pd then w else w * real (prod_list (tl (shape x))))))"
proof -
  have "bop (*) x (tmap exp logw) = Some (tmap (\<lambda>v. v * exp w) x)"
    by (rule bop_single_r) (simp_all add: assms)
  then show ?thesis
    by (simp add: ScaleNet_forward_def ScaleNet_log_jacobian_eq [OF assms(3,4,2)] split: Option.bind_splits)
qed

lemma ScaleNet_backward_eq:
  assumes "wf_tensor x" "shape x \<noteq> []" "shape logw = [Suc 0]" "data logw = [w]"
  shows "ScaleNet_backward pd logw x l =
           map_option (Pair (tmap (\<lambda>v. v / exp w) x))
             (bop (-) l (full (density_shape pd (shape x)) (if pd then w else w * real (prod_list (tl (shape x))))))"
proof -
  have "bop (/) x (tmap exp logw) = Some (tmap (\<lambda>v. v / exp w) x)"
    by (rule bop_single_r) (simp_all add: assms)
  then show ?thesis
    by (simp add: ScaleNet_backward_def ScaleNet_log_jacobian_eq [OF assms(3,4,2)] split: Option.bind_splits)
qed

lemma acts_ScaleNet:
  assumes "wf_tensor x" "shape x \<noteq> []" "shape logw = [Suc 0]" "data logw = [w]"
  shows "acts pd (ScaleNet_m a logw) x (tmap (\<lambda>v. v * exp w) x)"
proof (rule acts_density [where j = "full (density_shape pd (shape x)) (if pd then w else w * real (prod_list (tl (shape x))))"])
  let ?y = "tmap (\<lambda>v. v * exp w) x"
  let ?j = "full (density_shape pd (shape x)) (if pd then w else w * real (prod_list (tl (shape x))))"
  show "wf_tensor x" "shape x \<noteq> []" by (rule assms)+
  show "wf_tensor ?y" using assms(1) by simp
  show "shape ?y = shape x" by simp
  show "wf_tensor ?j" by simp
  show "shape ?j = density_shape pd (shape x)" by simp
  show "forward pd (ScaleNet_m a logw) x l = map_option (Pair ?y) (bop (+) l ?j)" for l
    by (simp add: ScaleNet_forward_eq [OF assms])
  have "tmap (\<lambda>v. v / exp w) ?y = x" by (simp add: tmap_tmap tmap_id)
  moreover have "ScaleNet_backward pd logw ?y l =
           map_option (Pair (tmap (\<lambda>v. v / exp w) ?y)) (bop (-) l ?j)" for l
    using ScaleNet_backward_eq [of ?y logw w pd l] assms by simp
  ultimately show "backward pd (ScaleNet_m a logw) ?y l = map_option (Pair x) (bop (+) l (tmap uminus ?j)) \<or>
        backward pd (ScaleNet_m a logw) ?y l = map_option (Pair x) (bop (-) l ?j)" for l
    by simp
qed

lemma sd_default: "sum_density (Module_init l) = Module_sum_density"
  by (simp add: Module_init_def)

lemma acts_Tanh:
  assumes "wf_tensor x" "shape x \<noteq> []" "sum_density a = Module_sum_density"
  shows "acts pd (Tanh_m a) x (tmap tanh x)"
proof (rule acts_density [where j = "tmap (\<lambda>v. - 2 * v) (Module_sum_density pd (tmap (\<lambda>v. ln (cosh v)) x))"])
  let ?s = "Module_sum_density pd (tmap (\<lambda>v. ln (cosh v)) x)"
  let ?j = "tmap (\<lambda>v. - 2 * v) ?s"
  show "wf_tensor x" "shape x \<noteq> []" by (rule assms)+
  show "wf_tensor (tmap tanh x)" using assms(1) by simp
  show "shape (tmap tanh x) = shape x" by simp
  show "wf_tensor ?j" using assms(1) by (simp add: wf_Module_sum_density)
  show "shape ?j = density_shape pd (shape x)" by (simp add: shape_Module_sum_density)
  show "forward pd (Tanh_m a) x l = map_option (Pair (tmap tanh x)) (bop (+) l ?j)" for l
    by (simp only: forward.simps Tanh_forward_eq assms(3))
  have 1: "tmap artanh (tmap tanh x) = x" by (simp add: tmap_tmap tmap_id artanh_tanh_real)
  have 2: "tmap (\<lambda>v. ln (cosh (artanh v))) (tmap tanh x) = tmap (\<lambda>v. ln (cosh v)) x"
    by (simp add: tmap_tmap artanh_tanh_real)
  have 3: "tmap (\<lambda>v. 2 * v) ?s = tmap uminus ?j" by (simp add: tmap_tmap)
  have "backward pd (Tanh_m a) (tmap tanh x) l = map_option (Pair x) (bop (+) l (tmap uminus ?j))" for l
    by (simp only: backward.simps Tanh_backward_def ArcTanh_forward_eq sd_default 1 2 3)
  then show "backward pd (Tanh_m a) (tmap tanh x) l = map_option (Pair x) (bop (+) l (tmap uminus ?j)) \<or>
        backward pd (Tanh_m a) (tmap tanh x) l = map_option (Pair x) (bop (-) l ?j)" for l
    by simp
qed

lemma acts_ArcTanh:
  assumes "wf_tensor x" "shape x \<noteq> []" "sum_density a = Module_sum_density"
    and "\<forall>v \<in> set (data x). \<bar>v\<bar> < 1"
  shows "acts pd (ArcTanh_m a) x (tmap artanh x)"
proof (rule acts_density [where j = "tmap (\<lambda>v. 2 * v) (Module_sum_density pd (tmap (\<lambda>v. ln (cosh (artanh v))) x))"])
  let ?s = "Module_sum_density pd (tmap (\<lambda>v. ln (cosh (artanh v))) x)"
  let ?j = "tmap (\<lambda>v. 2 * v) ?s"
  show "wf_tensor x" "shape x \<noteq> []" by (rule assms)+
  show "wf_tensor (tmap artanh x)" using assms(1) by simp
  show "shape (tmap artanh x) = shape x" by simp
  show "wf_tensor ?j" using assms(1) by (simp add: wf_Module_sum_density)
  show "shape ?j = density_shape pd (shape x)" by (simp add: shape_Module_sum_density)
  show "forward pd (ArcTanh_m a) x l = map_option (Pair (tmap artanh x)) (bop (+) l ?j)" for l
    by (simp only: forward.simps ArcTanh_forward_eq assms(3))
  have 1: "tmap tanh (tmap artanh x) = x" using assms(4) by (simp add: tmap_tmap tmap_id tanh_artanh)
  have 2: "tmap (\<lambda>v. ln (cosh v)) (tmap artanh x) = tmap (\<lambda>v. ln (cosh (artanh v))) x"
    by (simp add: tmap_tmap)
  have 3: "tmap (\<lambda>v. - 2 * v) ?s = tmap uminus ?j" by (simp add: tmap_tmap)
  have "backward pd (ArcTanh_m a) (tmap artanh x) l = map_option (Pair x) (bop (+) l (tmap uminus ?j))" for l
    by (simp only: backward.simps ArcTanh_backward_def Tanh_forward_eq sd_default 1 2 3)
  then show "backward pd (ArcTanh_m a) (tmap artanh x) l = map_option (Pair x) (bop (+) l (tmap uminus ?j)) \<or>
        backward pd (ArcTanh_m a) (tmap artanh x) l = map_option (Pair x) (bop (-) l ?j)" for l
    by simp
qed

lemma acts_Expit:
  assumes "wf_tensor x" "shape x \<noteq> []" "sum_density a = Module_sum_density"
  shows "acts pd (Expit_m a) x (tmap expit x)"
proof (rule acts_density [where j = "Module_sum_density pd (tmap (\<lambda>v. - v + 2 * ln (expit v)) x)"])
  let ?j = "Module_sum_density pd (tmap (\<lambda>v. - v + 2 * ln (expit v)) x)"
  show "wf_tensor x" "shape x \<noteq> []" by (rule assms)+
  show w: "wf_tensor (tmap expit x)" using assms(1) by simp
  show "shape (tmap expit x) = shape x" by simp
  show "wf_tensor ?j" using assms(1) by (simp add: wf_Module_sum_density)
  show "shape ?j = density_shape pd (shape x)" by (simp add: shape_Module_sum_density)
  show "forward pd (Expit_m a) x l = map_option (Pair (tmap expit x)) (bop (+) l ?j)" for l
    by (simp only: forward.simps Expit_forward_eq [OF assms(1)] assms(3))
  have 1: "tmap (\<lambda>v. ln (v / (1 - v))) (tmap expit x) = x"
    by (simp add: tmap_tmap logit_expit tmap_id)
  have 2: "tmap (\<lambda>v. ln (v * (1 - v))) (tmap expit x) = tmap (\<lambda>v. - v + 2 * ln (expit v)) x"
    by (simp add: tmap_tmap ln_expit_jac)
  have "backward pd (Expit_m a) (tmap expit x) l = map_option (Pair x) (bop (+) l (tmap uminus ?j))" for l
    by (simp only: backward.simps Expit_backward_def Logit_forward_eq [OF w] sd_default 1 2)
  then show "backward pd (Expit_m a) (tmap expit x) l = map_option (Pair x) (bop (+) l (tmap uminus ?j)) \<or>
        backward pd (Expit_m a) (tmap expit x) l = map_option (Pair x) (bop (-) l ?j)" for l
    by simp
qed

lemma acts_Logit:
  assumes "wf_tensor x" "shape x \<noteq> []" "sum_density a = Module_sum_density"
    and "\<forall>v \<in> set (data x). 0 < v \<and> v < 1"
  shows "acts pd (Logit_m a) x (tmap (\<lambda>v. ln (v / (1 - v))) x)"
proof (rule acts_density [where j = "tmap uminus (Module_sum_density pd (tmap (\<lambda>v. ln (v * (1 - v))) x))"])
  let ?s = "Module_sum_density pd (tmap (\<lambda>v. ln (v * (1 - v))) x)"
  let ?j = "tmap uminus ?s"
  let ?y = "tmap (\<lambda>v. ln (v / (1 - v))) x"
  show "wf_tensor x" "shape x \<noteq> []" by (rule assms)+
  show w: "wf_tensor ?y" using assms(1) by simp
  show "shape ?y = shape x" by simp
  show "wf_tensor ?j" using assms(1) by (simp add: wf_Module_sum_density)
  show "shape ?j = density_shape pd (shape x)" by (simp add: shape_Module_sum_density)
  show "forward pd (Logit_m a) x l = map_option (Pair ?y) (bop (+) l ?j)" for l
    by (simp only: forward.simps Logit_forward_eq [OF assms(1)] assms(3))
  have 1: "tmap expit ?y = x" using assms(4) by (simp add: tmap_tmap expit_logit tmap_id)
  have 2: "tmap (\<lambda>v. - v + 2 * ln (expit v)) ?y = tmap (\<lambda>v. ln (v * (1 - v))) x"
    unfolding tmap_tmap using assms(4) by (intro tmap_cong expit_logit_jac) auto
  have 3: "?s = tmap uminus ?j" by (simp add: tmap_tmap tmap_id)
  have 4: "tmap uminus (tmap uminus ?s) = ?s" by (simp add: tmap_tmap tmap_id)
  have "backward pd (Logit_m a) ?y l = map_option (Pair x) (bop (+) l (tmap uminus ?j))" for l
    by (simp only: backward.simps Logit_backward_def Expit_forward_eq [OF w] sd_default 1 2 4)
  then show "backward pd (Logit_m a) ?y l = map_option (Pair x) (bop (+) l (tmap uminus ?j)) \<or>
        backward pd (Logit_m a) ?y l = map_option (Pair x) (bop (-) l ?j)" for l
    by blast
qed

lemma sum_list_uminus: "sum_list (map uminus xs) = - sum_list (xs :: real list)"
  by (induction xs) simp_all

lemma sum_nonbatch_uminus: "sum_nonbatch (tmap uminus t) = tmap uminus (sum_nonbatch t)"
  by (cases "shape t")
     (simp_all add: sum_nonbatch_def tmap_def take_map drop_map sum_list_uminus comp_def)

lemma Module_sum_density_uminus:
  "Module_sum_density pd (tmap uminus t) = tmap uminus (Module_sum_density pd t)"
  by (simp add: Module_sum_density_def sum_nonbatch_uminus)

lemma SplineNet_forward_gen:
  assumes "spline_call (spl sp) (if spline_shape (spl sp) = [] then ravel x else x) = Some (y, g)"
    and "length (data y) = length (data x)" "length (data g) = length (data x)" "wf_tensor x"
    and "spline_shape (spl sp) \<noteq> [] \<longrightarrow> shape y = shape x \<and> shape g = shape x"
  shows "SplineNet_forward pd a sp x l =
     map_option (Pair \<lparr>shape = shape x, data = data y\<rparr>)
       (bop (+) l (sum_density a pd (tmap ln \<lparr>shape = shape x, data = data g\<rparr>)))"
proof (cases "spline_shape (spl sp) = []")
  case True
  then show ?thesis using assms
    by (simp add: SplineNet_forward_def reshape_ok split: Option.bind_splits)
next
  case False
  then have "y = \<lparr>shape = shape x, data = data y\<rparr>" "g = \<lparr>shape = shape x, data = data g\<rparr>"
    using assms(5) by simp_all
  then show ?thesis using False assms(1)
    by (simp add: SplineNet_forward_def split: Option.bind_splits)
qed

lemma SplineNet_backward_gen:
  assumes "spline_inverse (spl sp) (if spline_shape (spl sp) = [] then ravel x else x) = Some (y, g)"
    and "length (data y) = length (data x)" "length (data g) = length (data x)" "wf_tensor x"
    and "spline_shape (spl sp) \<noteq> [] \<longrightarrow> shape y = shape x \<and> shape g = shape x"
  shows "SplineNet_backward pd a sp x l =
     map_option (Pair \<lparr>shape = shape x, data = data y\<rparr>)
       (bop (+) l (sum_density a pd (tmap ln \<lparr>shape = shape x, data = data g\<rparr>)))"
proof (cases "spline_shape (spl sp) = []")
  case True
  then show ?thesis using assms
    by (simp add: SplineNet_backward_def reshape_ok split: Option.bind_splits)
next
  case False
  then have "y = \<lparr>shape = shape x, data = data y\<rparr>" "g = \<lparr>shape = shape x, data = data g\<rparr>"
    using assms(5) by simp_all
  then show ?thesis using False assms(1)
    by (simp add: SplineNet_backward_def split: Option.bind_splits)
qed

lemma acts_SplineNet:
  assumes "wf_tensor x" "shape x \<noteq> []" "sum_density a = Module_sum_density"
    and "spline_contract sp x"
  shows "\<exists>y. acts pd (SplineNet_m a sp) x y"
proof -
  let ?inp = "if spline_shape (spl sp) = [] then ravel x else x"
  from assms(4) obtain y g where c: "spline_call (spl sp) ?inp = Some (y, g)"
    and w: "wf_tensor y" "wf_tensor g" and sh: "shape y = shape ?inp" "shape g = shape ?inp"
    and pos: "list_all (\<lambda>v. 0 < v) (data g)"
    and inv: "spline_inverse (spl sp) y = Some (?inp, tmap inverse g)"
    by (auto simp: spline_contract_def Let_def split: option.splits)
  have n: "length (data x) = prod_list (shape x)" using assms(1) by (simp add: wf_tensor_def)
  have pi: "prod_list (shape ?inp) = length (data x)" by (simp add: ravel_def n)
  have ly: "length (data y) = length (data x)" using w(1) sh(1) pi by (simp add: wf_tensor_def)
  have lg: "length (data g) = length (data x)" using w(2) sh(2) pi by (simp add: wf_tensor_def)
  have nz: "spline_shape (spl sp) \<noteq> [] \<longrightarrow> shape y = shape x \<and> shape g = shape x"
    using sh by simp
  let ?Y = "\<lparr>shape = shape x, data = data y\<rparr>"
  let ?G = "\<lparr>shape = shape x, data = data g\<rparr>"
  let ?j = "Module_sum_density pd (tmap ln ?G)"
  have wY: "wf_tensor ?Y" using ly n by (simp add: wf_tensor_def)
  have wG: "wf_tensor ?G" using lg n by (simp add: wf_tensor_def)
  have f: "forward pd (SplineNet_m a sp) x l = map_option (Pair ?Y) (bop (+) l ?j)" for l
    using SplineNet_forward_gen [OF c ly lg assms(1) nz, of pd a l] by (simp add: assms(3))
  have iy: "(if spline_shape (spl sp) = [] then ravel ?Y else ?Y) = y"
    using sh(1) ly by (auto simp: ravel_def)
  have di: "data ?inp = data x" by (simp add: ravel_def)
  have inv': "spline_inverse (spl sp) (if spline_shape (spl sp) = [] then ravel ?Y else ?Y) =
                Some (?inp, tmap inverse g)"
    by (simp only: iy inv)
  have nz': "spline_shape (spl sp) \<noteq> [] \<longrightarrow>
               shape ?inp = shape ?Y \<and> shape (tmap inverse g) = shape ?Y"
    using sh by simp
  have b0: "backward pd (SplineNet_m a sp) ?Y l =
      map_option (Pair \<lparr>shape = shape ?Y, data = data ?inp\<rparr>)
        (bop (+) l (Module_sum_density pd (tmap ln \<lparr>shape = shape ?Y, data = data (tmap inverse g)\<rparr>)))" for l
    using SplineNet_backward_gen [OF inv', of pd a l] wY lg ly nz' di
    by (simp add: assms(3))
  have x': "\<lparr>shape = shape ?Y, data = data ?inp\<rparr> = x" by (simp add: di)
  have "tmap ln \<lparr>shape = shape ?Y, data = data (tmap inverse g)\<rparr> = tmap uminus (tmap ln ?G)"
    using pos by (auto simp: tmap_def list_all_iff ln_inverse)
  then have j': "Module_sum_density pd (tmap ln \<lparr>shape = shape ?Y, data = data (tmap inverse g)\<rparr>) =
                 tmap uminus ?j"
    by (simp only: Module_sum_density_uminus)
  have b: "backward pd (SplineNet_m a sp) ?Y l = map_option (Pair x) (bop (+) l (tmap uminus ?j))" for l
    using b0 [of l] by (simp only: x' j')
  have "acts pd (SplineNet_m a sp) x ?Y"
  proof (rule acts_density [where j = ?j])
    show "wf_tensor x" "shape x \<noteq> []" by (rule assms)+
    show "wf_tensor ?Y" by (rule wY)
    show "shape ?Y = shape x" by simp
    show "wf_tensor ?j" using wG by (simp add: wf_Module_sum_density)
    show "shape ?j = density_shape pd (shape x)" by (simp add: shape_Module_sum_density)
    show "forward pd (SplineNet_m a sp) x l = map_option (Pair ?Y) (bop (+) l ?j)" for l by (rule f)
    show "backward pd (SplineNet_m a sp) ?Y l = map_option (Pair x) (bop (+) l (tmap uminus ?j)) \<or>
        backward pd (SplineNet_m a sp) ?Y l = map_option (Pair x) (bop (-) l ?j)" for l
      using b [of l] by blast
  qed
  then show ?thesis ..
qed

lemma acts_list_Nil: "wf_tensor x \<Longrightarrow> acts_list pd [] x x"
  by (simp add: acts_list_def)

lemma acts_list_Cons:
  assumes "acts pd net x y" "acts_list pd nets y z"
  shows "acts_list pd (net # nets) x z"
proof -
  let ?d = "density_shape pd (shape x)"
  from assms(1) have sy: "shape y = shape x" by (simp add: acts_def)
  from assms(2) have wz: "wf_tensor z" "shape z = shape x" using sy by (simp_all add: acts_list_def)
  {
    fix l assume c: "compat ?d l"
    from assms(1) c obtain l1 where f1: "forward pd net x l = Some (y, l1)" and c1: "compat ?d l1"
      and b1: "\<And>l2. compat ?d l2 \<Longrightarrow> lift_density ?d l2 = lift_density ?d l1 \<Longrightarrow>
              \<exists>l3. backward pd net y l2 = Some (x, l3) \<and> compat ?d l3 \<and>
                   lift_density ?d l3 = lift_density ?d l"
      unfolding acts_def by blast
    from assms(2) c1 sy obtain m1 where f2: "forward_list pd nets y l1 = Some (z, m1)" and d1: "compat ?d m1"
      and b2: "\<And>l2. compat ?d l2 \<Longrightarrow> lift_density ?d l2 = lift_density ?d m1 \<Longrightarrow>
              \<exists>l3. backward_list pd nets z l2 = Some (y, l3) \<and> compat ?d l3 \<and>
                   lift_density ?d l3 = lift_density ?d l1"
      unfolding acts_list_def by (metis (no_types, lifting))
    have f: "forward_list pd (net # nets) x l = Some (z, m1)" by (simp add: f1 f2)
    {
      fix l2 assume c2: "compat ?d l2" and e: "lift_density ?d l2 = lift_density ?d m1"
      from b2 [OF c2 e] obtain l3 where r2: "backward_list pd nets z l2 = Some (y, l3)"
        and c3: "compat ?d l3" and e3: "lift_density ?d l3 = lift_density ?d l1" by blast
      from b1 [OF c3 e3] obtain l4 where r1: "backward pd net y l3 = Some (x, l4)"
        and c4: "compat ?d l4" and e4: "lift_density ?d l4 = lift_density ?d l" by blast
      have "backward_list pd (net # nets) z l2 = Some (x, l4)" by (simp add: r2 r1)
      with c4 e4 have "\<exists>l3. backward_list pd (net # nets) z l2 = Some (x, l3) \<and> compat ?d l3 \<and>
                   lift_density ?d l3 = lift_density ?d l" by blast
    }
    with f d1 have "\<exists>l1. forward_list pd (net # nets) x l = Some (z, l1) \<and> compat ?d l1 \<and>
           (\<forall>l2. compat ?d l2 \<and> lift_density ?d l2 = lift_density ?d l1 \<longrightarrow>
              (\<exists>l3. backward_list pd (net # nets) z l2 = Some (x, l3) \<and> compat ?d l3 \<and>
                 lift_density ?d l3 = lift_density ?d l))" by blast
  }
  then show ?thesis using wz by (simp add: acts_list_def)
qed

lemma acts_forward: "acts pd net x y \<Longrightarrow> \<exists>l. forward pd net x (scalar 0) = Some (y, l)"
  unfolding acts_def using compat_scalar by blast

lemma acts_DistConvertor: "acts_list pd nets x y \<Longrightarrow> acts pd (DistConvertor_m a nets) x y"
  by (simp add: acts_def acts_list_def)

lemma single_data: "wf_tensor w \<Longrightarrow> shape w = [Suc 0] \<Longrightarrow> \<exists>c. data w = [c]"
  by (cases "data w") (auto simp: wf_tensor_def)

lemma valid_acts:
  "valid pd net x \<Longrightarrow> \<exists>y. acts pd net x y"
  "valid_list pd nets x' \<Longrightarrow> \<exists>y. acts_list pd nets x' y"
proof (induction pd net x and pd nets x' rule: valid_valid_list.induct)
  case (1 pd a x)
  then show ?case using acts_Identity by auto
next
  case (2 pd a x)
  then show ?case using acts_Clone by auto
next
  case (3 pd a logw x)
  then obtain w where "data logw = [w]" using single_data [of logw] by auto
  with 3 have "acts pd (ScaleNet_m a logw) x (tmap (\<lambda>v. v * exp w) x)"
    by (intro acts_ScaleNet) simp_all
  then show ?case ..
next
  case (4 pd a x)
  then show ?case using acts_Tanh by auto
next
  case (5 pd a x)
  then show ?case using acts_ArcTanh [of x a pd] by (auto simp: list_all_iff)
next
  case (6 pd a x)
  then show ?case using acts_Expit by auto
next
  case (7 pd a x)
  then show ?case using acts_Logit [of x a pd] by (auto simp: list_all_iff)
next
  case (8 pd a sp x)
  then show ?case using acts_SplineNet by auto
next
  case (9 pd a w x)
  then obtain c where "data w = [c]" using single_data [of w] by auto
  with 9 have "acts pd (SgnBiasNet_m a w) x (tmap (\<lambda>v. v + sgn v * c\<^sup>2) x)"
    by (intro acts_SgnBiasNet) simp_all
  then show ?case ..
next
  case (10 pd a nets x)
  from 10(2) have "valid_list pd nets x" by simp
  from 10(1) [OF this] obtain y where "acts_list pd nets x y" ..
  then have "acts pd (DistConvertor_m a nets) x y" by (rule acts_DistConvertor)
  then show ?case ..
next
  case (11 pd a net m orig x)
  then show ?case by simp
next
  case (12 pd x)
  then show ?case using acts_list_Nil by auto
next
  case (13 pd net nets x)
  from 13(3) have "valid pd net x" by simp
  with 13(1) obtain y where a: "acts pd net x y" by blast
  from acts_forward [OF a] obtain l where f: "forward pd net x (scalar 0) = Some (y, l)" ..
  with 13(3) have "valid_list pd nets y" by simp
  with 13(2) [OF f refl] obtain z where "acts_list pd nets y z" by blast
  with a have "acts_list pd (net # nets) x z" by (rule acts_list_Cons)
  then show ?case ..
qed

lemma round_trip_modules:
  assumes "valid pd net x" and "compat (density_shape pd (shape x)) log0"
  shows "\<exists>y l l'. forward pd net x log0 = Some (y, l) \<and> backward pd net y l = Some (x, l') \<and>
           lift_density (density_shape pd (shape x)) l' = lift_density (density_shape pd (shape x)) log0"
proof -
  from valid_acts(1) [OF assms(1)] obtain y where "acts pd net x y" ..
  with assms(2) show ?thesis unfolding acts_def by blast
qed

lemma sel_tmap_nth:
  assumes "length act = n" "length (data t) = n" "i < n"
  shows "data (sel act (tmap h t)) ! i = (if act ! i then h (data t ! i) else 0)"
  using assms by (simp add: sel_def)

lemma length_sel_tmap:
  assumes "length act = n" "length (data t) = n"
  shows "length (data (sel act (tmap h t))) = n"
  using assms by (simp add: sel_def)

lemma sel_sel: "sel act (sel act t) = sel act t"
  by (rule tensor_eqI) (auto simp: sel_def intro!: nth_equalityI)

lemma acts_MaskedWrapper:
  assumes "wf_tensor x" "shape x = s" "s \<noteq> []" "length act = prod_list s"
    and inner: "\<forall>t. wf_tensor t \<and> shape t = s \<longrightarrow>
          forward pd net t (scalar 0) = Some (tmap f t, tmap jf t) \<and>
          backward pd net t (scalar 0) = Some (tmap g t, tmap jb t)"
    and lanes: "\<forall>i<length (data x). act ! i \<longrightarrow>
          g (f (data x ! i)) = data x ! i \<and> jb (f (data x ! i)) = - jf (data x ! i)"
  shows "acts pd (MaskedWrapperNet_m a net (lane_mask s act) Module_sum_density) x
           \<lparr>shape = s, data = map2 (+) (data (sel act (tmap f (sel act x)))) (data (sel (map Not act) x))\<rparr>"
proof -
  let ?W = "MaskedWrapperNet_m a net (lane_mask s act) Module_sum_density"
  let ?xa = "sel act x"
  let ?y = "\<lparr>shape = s, data = map2 (+) (data (sel act (tmap f ?xa))) (data (sel (map Not act) x))\<rparr>"
  let ?p = "sel act (tmap jf ?xa)"
  let ?j = "Module_sum_density pd ?p"
  have n: "length (data x) = prod_list s" using assms(1,2) by (simp add: wf_tensor_def)
  have wxa: "wf_tensor ?xa" "shape ?xa = s" using assms(1,2,4) n by (simp_all add: wf_sel)
  have lxa: "length (data ?xa) = prod_list s" using wxa by (simp add: wf_tensor_def)
  have ly: "length (data ?y) = prod_list s"
    using frame_length [OF assms(4) _ n, of "tmap f ?xa"] lxa by simp
  have wy: "wf_tensor ?y" "shape ?y = s" using ly by (simp_all add: wf_tensor_def)
  have ynth: "data ?y ! i = (if act ! i then f (data x ! i) else data x ! i)" if "i < prod_list s" for i
    using frame_nth [OF assms(4) _ n that, of "tmap f ?xa"] lxa that assms(4) n
    by (simp add: data_sel_nth)
  have wp: "wf_tensor ?p" "shape ?p = s" using wxa lxa assms(4) by (simp_all add: wf_sel)
  \<comment> \<open>forward\<close>
  have inf: "forward pd net ?xa (scalar 0) = Some (tmap f ?xa, tmap jf ?xa)"
    using inner wxa by blast
  have pj: "mask_purify (lane_mask s act) (tmap jf ?xa) 0 = Some ?p"
    using wxa assms(4) by (intro lane_purify) simp_all
  have f: "forward pd ?W x l = map_option (Pair ?y) (bop (+) l ?j)" for l
  proof -
    have "forward pd ?W x l =
       (case mask_purify (lane_mask s act) (tmap jf ?xa) 0 of
          None \<Rightarrow> None
        | Some purified \<Rightarrow> map_option (Pair ?y) (bop (+) l (Module_sum_density pd purified)))"
      using wxa by (intro wrapper_forward_eval [OF assms(1,2,4) inf]) simp_all
    then show ?thesis by (simp only: pj option.case)
  qed
  \<comment> \<open>backward at the image\<close>
  let ?ya = "sel act ?y"
  have wya: "wf_tensor ?ya" "shape ?ya = s" using wy ly assms(4) by (simp_all add: wf_sel)
  have lya: "length (data ?ya) = prod_list s" using wya by (simp add: wf_tensor_def)
  have yanth: "data ?ya ! i = (if act ! i then f (data x ! i) else 0)" if "i < prod_list s" for i
    using that assms(4) ly ynth [OF that] by (simp add: data_sel_nth)
  have inb: "backward pd net ?ya (scalar 0) = Some (tmap g ?ya, tmap jb ?ya)"
    using inner wya by blast
  have pjb: "mask_purify (lane_mask s act) (tmap jb ?ya) 0 = Some (sel act (tmap jb ?ya))"
    using wya assms(4) by (intro lane_purify) simp_all
  have xd: "\<lparr>shape = s, data = map2 (+) (data (sel act (tmap g ?ya))) (data (sel (map Not act) ?y))\<rparr> = x"
  proof (rule tensor_eqI)
    show "shape \<lparr>shape = s, data = map2 (+) (data (sel act (tmap g ?ya))) (data (sel (map Not act) ?y))\<rparr> = shape x"
      using assms(2) by simp
    have l: "length (map2 (+) (data (sel act (tmap g ?ya))) (data (sel (map Not act) ?y))) = prod_list s"
      using frame_length [OF assms(4) _ ly, of "tmap g ?ya"] lya by simp
    have "map2 (+) (data (sel act (tmap g ?ya))) (data (sel (map Not act) ?y)) = data x"
    proof (rule nth_equalityI)
      show "length (map2 (+) (data (sel act (tmap g ?ya))) (data (sel (map Not act) ?y))) = length (data x)"
        by (simp only: l n)
    next
      fix i assume "i < length (map2 (+) (data (sel act (tmap g ?ya))) (data (sel (map Not act) ?y)))"
      then have i: "i < prod_list s" by (simp only: l)
      have "map2 (+) (data (sel act (tmap g ?ya))) (data (sel (map Not act) ?y)) ! i =
              (if act ! i then data (tmap g ?ya) ! i else data ?y ! i)"
        using frame_nth [OF assms(4) _ ly i, of "tmap g ?ya"] lya by simp
      also have "\<dots> = data x ! i"
        using i lya yanth [OF i] ynth [OF i] lanes n by simp
      finally show "map2 (+) (data (sel act (tmap g ?ya))) (data (sel (map Not act) ?y)) ! i = data x ! i" .
    qed
    then show "data \<lparr>shape = s, data = map2 (+) (data (sel act (tmap g ?ya))) (data (sel (map Not act) ?y))\<rparr> = data x"
      by simp
  qed
  have pd': "sel act (tmap jb ?ya) = tmap uminus ?p"
  proof (rule tensor_eqI)
    show "shape (sel act (tmap jb ?ya)) = shape (tmap uminus ?p)" using wya wxa by simp
    show "data (sel act (tmap jb ?ya)) = data (tmap uminus ?p)"
    proof (rule nth_equalityI)
      show "length (data (sel act (tmap jb ?ya))) = length (data (tmap uminus ?p))"
        by (simp only: length_sel_tmap [OF assms(4) lya] length_sel_tmap [OF assms(4) lxa]
              data_tmap length_map)
    next
      fix i assume "i < length (data (sel act (tmap jb ?ya)))"
      then have i: "i < prod_list s" by (simp only: length_sel_tmap [OF assms(4) lya])
      have "data (sel act (tmap jb ?ya)) ! i = (if act ! i then jb (data ?ya ! i) else 0)"
        by (rule sel_tmap_nth [OF assms(4) lya i])
      also have "\<dots> = (if act ! i then - jf (data x ! i) else 0)"
        using yanth [OF i] lanes i n by simp
      also have "\<dots> = - (if act ! i then jf (data ?xa ! i) else 0)"
        using i assms(4) n by (simp add: data_sel_nth)
      also have "\<dots> = - data ?p ! i"
        by (simp only: sel_tmap_nth [OF assms(4) lxa i])
      also have "\<dots> = data (tmap uminus ?p) ! i"
        using i length_sel_tmap [OF assms(4) lxa, of jf] by simp
      finally show "data (sel act (tmap jb ?ya)) ! i = data (tmap uminus ?p) ! i" .
    qed
  qed
  have b: "backward pd ?W ?y l = map_option (Pair x) (bop (+) l (tmap uminus ?j))" for l
  proof -
    have "backward pd ?W ?y l =
       (case mask_purify (lane_mask s act) (tmap jb ?ya) 0 of
          None \<Rightarrow> None
        | Some purified \<Rightarrow>
            map_option (Pair \<lparr>shape = s, data = map2 (+) (data (sel act (tmap g ?ya))) (data (sel (map Not act) ?y))\<rparr>)
              (bop (+) l (Module_sum_density pd purified)))"
      using wya by (intro wrapper_backward_eval [OF wy assms(4) inb]) simp_all
    then show ?thesis by (simp only: pjb option.case xd pd' Module_sum_density_uminus)
  qed
  show ?thesis
  proof (rule acts_density [where j = ?j])
    show "wf_tensor x" by (rule assms(1))
    show "shape x \<noteq> []" using assms(2,3) by simp
    show "wf_tensor ?y" by (rule wy(1))
    show "shape ?y = shape x" using assms(2) by simp
    show "wf_tensor ?j" using wp by (simp add: wf_Module_sum_density)
    show "shape ?j = density_shape pd (shape x)" using wp assms(2) by (simp add: shape_Module_sum_density)
    show "forward pd ?W x l = map_option (Pair ?y) (bop (+) l ?j)" for l by (rule f)
    show "backward pd ?W ?y l = map_option (Pair x) (bop (+) l (tmap uminus ?j)) \<or>
          backward pd ?W ?y l = map_option (Pair x) (bop (-) l ?j)" for l
      using b [of l] by blast
  qed
qed

lemma round_trip_wrapper:
  assumes "wf_tensor x" "shape x = s" "s \<noteq> []" "length act = prod_list s"
    and "\<forall>t. wf_tensor t \<and> shape t = s \<longrightarrow>
          forward pd net t (scalar 0) = Some (tmap f t, tmap jf t) \<and>
          backward pd net t (scalar 0) = Some (tmap g t, tmap jb t)"
    and "\<forall>i<length (data x). act ! i \<longrightarrow>
          g (f (data x ! i)) = data x ! i \<and> jb (f (data x ! i)) = - jf (data x ! i)"
    and "compat (density_shape pd s) log0"
  shows "\<exists>y l l'.
     forward pd (MaskedWrapperNet_m a net (lane_mask s act) Module_sum_density) x log0 = Some (y, l) \<and>
     backward pd (MaskedWrapperNet_m a net (lane_mask s act) Module_sum_density) y l = Some (x, l') \<and>
     lift_density (density_shape pd s) l' = lift_density (density_shape pd s) log0"
  using acts_MaskedWrapper [OF assms(1-6), of a] assms(2,7) unfolding acts_def by blast

text \<open>
  Claim C1, at the masked wrapper. With the density flag unset, a wrapper around \<open>Tanh_\<close>
  and a sample of shape \<open>(2, 3)\<close>: \<open>forward\<close> returns, and \<open>backward\<close> applied to its result
  raises, because the inner \<open>backward\<close> hands a density of shape \<open>(2)\<close> to \<open>purify\<close>. With the
  flag set, \<open>backward\<close> applied to the result of \<open>forward\<close> returns the sample and a density
  that is zero everywhere.
\<close>

theorem masked_round_trip_scalar_mode:
  "MaskedWrapperNet_init (Tanh_m (Module_init (Some ''tanh_'')))
       (lane_mask [2, 3] [True, False, False, True, False, False]) =
     Some (MaskedWrapperNet_m (Module_init (Some ''wrappertanh_''))
            (Tanh_m \<lparr>label = Some ''tanh_'', sum_density = (\<lambda>pd x. x)\<rparr>)
            (lane_mask [2, 3] [True, False, False, True, False, False])
            Module_sum_density) \<and>
   (\<exists>y l. forward False
             (MaskedWrapperNet_m (Module_init (Some ''wrappertanh_''))
               (Tanh_m \<lparr>label = Some ''tanh_'', sum_density = (\<lambda>pd x. x)\<rparr>)
               (lane_mask [2, 3] [True, False, False, True, False, False])
               Module_sum_density)
             \<lparr>shape = [2, 3], data = [1/2, 1, 2, 1/4, 3, 4]\<rparr> (scalar 0) = Some (y, l) \<and>
           y = \<lparr>shape = [2, 3], data = [tanh (1/2), 1, 2, tanh (1/4), 3, 4]\<rparr> \<and>
           backward False
             (MaskedWrapperNet_m (Module_init (Some ''wrappertanh_''))
               (Tanh_m \<lparr>label = Some ''tanh_'', sum_density = (\<lambda>pd x. x)\<rparr>)
               (lane_mask [2, 3] [True, False, False, True, False, False])
               Module_sum_density)
             y l = None) \<and>
   (\<exists>y l. forward True
             (MaskedWrapperNet_m (Module_init (Some ''wrappertanh_''))
               (Tanh_m \<lparr>label = Some ''tanh_'', sum_density = (\<lambda>pd x. x)\<rparr>)
               (lane_mask [2, 3] [True, False, False, True, False, False])
               Module_sum_density)
             \<lparr>shape = [2, 3], data = [1/2, 1, 2, 1/4, 3, 4]\<rparr> (scalar 0) = Some (y, l) \<and>
           backward True
             (MaskedWrapperNet_m (Module_init (Some ''wrappertanh_''))
               (Tanh_m \<lparr>label = Some ''tanh_'', sum_density = (\<lambda>pd x. x)\<rparr>)
               (lane_mask [2, 3] [True, False, False, True, False, False])
               Module_sum_density)
             y l = Some (\<lparr>shape = [2, 3], data = [1/2, 1, 2, 1/4, 3, 4]\<rparr>, \<lparr>shape = [2, 3], data = [0, 0, 0, 0, 0, 0]\<rparr>))"
proof -
  let ?act = "[True, False, False, True, False, False]"
  let ?net = "Tanh_m \<lparr>label = Some ''tanh_'', sum_density = (\<lambda>pd x. x)\<rparr>"
  let ?M = "lane_mask [2, 3] ?act"
  let ?a = "Module_init (Some ''wrappertanh_'')"
  let ?W = "MaskedWrapperNet_m ?a ?net ?M Module_sum_density"
  let ?x = "\<lparr>shape = [2, 3], data = [1/2, 1, 2, 1/4, 3, 4]\<rparr>"
  let ?y = "\<lparr>shape = [2, 3], data = [tanh (1/2), 1, 2, tanh (1/4), 3, 4]\<rparr>"
  have i: "MaskedWrapperNet_init (Tanh_m (Module_init (Some ''tanh_''))) ?M = Some ?W"
    by (simp add: MaskedWrapperNet_init_def label_of_def Module_init_def)
  have h3: "length ?act = prod_list [2, 3]" by simp
  have wx: "wf_tensor ?x" "shape ?x = [2, 3]" by (simp_all add: wf_tensor_def)
  have wy: "wf_tensor ?y" "shape ?y = [2, 3]" by (simp_all add: wf_tensor_def)
  \<comment> \<open>forward: the inner call returns the per-element density\<close>
  let ?y1 = "tmap tanh (sel ?act ?x)"
  let ?jd = "tmap (\<lambda>v. - 2 * v) (tmap (\<lambda>v. ln (cosh v)) (sel ?act ?x))"
  have wsx: "wf_tensor (sel ?act ?x)" by (rule wf_sel) (simp_all add: wf_tensor_def)
  have inf: "forward False ?net (sel ?act ?x) (scalar 0) = Some (?y1, ?jd)"
    using wsx by (simp add: Tanh_forward_eq bop_zero_l)
  have pj: "mask_purify ?M ?jd 0 = Some (sel ?act ?jd)"
    using wsx h3 by (intro lane_purify) simp_all
  let ?l = "Module_sum_density False (sel ?act ?jd)"
  have wl: "wf_tensor ?l"
    using wsx by (intro wf_Module_sum_density wf_sel) (simp_all add: wf_tensor_def)
  have yd: "\<lparr>shape = [2, 3], data = map2 (+) (data (sel ?act ?y1)) (data (sel (map Not ?act) ?x))\<rparr> = ?y"
    by (simp add: sel_def)
  have wy1: "wf_tensor ?y1" "shape ?y1 = [2, 3]" using wsx by simp_all
  have f: "forward False ?W ?x (scalar 0) = Some (?y, ?l)"
  proof -
    have "forward False ?W ?x (scalar 0) =
       (case mask_purify ?M ?jd 0 of
          None \<Rightarrow> None
        | Some purified \<Rightarrow>
            map_option (Pair \<lparr>shape = [2, 3], data = map2 (+) (data (sel ?act ?y1)) (data (sel (map Not ?act) ?x))\<rparr>)
              (bop (+) (scalar 0) (Module_sum_density False purified)))"
      by (rule wrapper_forward_eval [OF wx h3 inf wy1])
    also have "\<dots> = map_option (Pair ?y) (bop (+) (scalar 0) ?l)"
      by (simp only: pj option.case yd)
    also have "\<dots> = Some (?y, ?l)"
      by (simp only: bop_zero_l [OF wl] option.map)
    finally show ?thesis .
  qed
  \<comment> \<open>backward: the inner call returns the density already reduced\<close>
  let ?d = "tmap (\<lambda>v. 2 * v) (Module_sum_density False (tmap (\<lambda>v. ln (cosh (artanh v))) (sel ?act ?y)))"
  have wsy: "wf_tensor (sel ?act ?y)" by (rule wf_sel) (simp_all add: wf_tensor_def)
  have wd: "wf_tensor ?d" using wsy by (simp add: wf_Module_sum_density)
  have ib: "backward False ?net (sel ?act ?y) (scalar 0) = Some (tmap artanh (sel ?act ?y), ?d)"
    using wd by (simp add: Tanh_backward_def ArcTanh_forward_eq Module_init_def bop_zero_l)
  have pn: "mask_purify ?M ?d 0 = None"
    by (simp add: lane_mask_def Let_def bop_def mask_tensor_def broadcast_shapes_def
          shape_Module_sum_density density_shape_def)
  have wb1: "wf_tensor (tmap artanh (sel ?act ?y))" "shape (tmap artanh (sel ?act ?y)) = [2, 3]"
    using wsy by simp_all
  have b: "backward False ?W ?y ?l = None"
  proof -
    have "backward False ?W ?y ?l =
       (case mask_purify ?M ?d 0 of
          None \<Rightarrow> None
        | Some purified \<Rightarrow>
            map_option (Pair \<lparr>shape = [2, 3],
                 data = map2 (+) (data (sel ?act (tmap artanh (sel ?act ?y)))) (data (sel (map Not ?act) ?y))\<rparr>)
              (bop (+) ?l (Module_sum_density False purified)))"
      by (rule wrapper_backward_eval [OF wy h3 ib wb1])
    also have "\<dots> = None" by (simp only: pn option.case)
    finally show ?thesis .
  qed
  \<comment> \<open>per-element mode: both inner calls return per-element densities\<close>
  let ?lp = "Module_sum_density True (sel ?act ?jd)"
  have inf': "forward True ?net (sel ?act ?x) (scalar 0) = Some (?y1, ?jd)"
    using wsx by (simp add: Tanh_forward_eq bop_zero_l)
  have wlp: "wf_tensor ?lp"
    using wsx by (intro wf_Module_sum_density wf_sel) (simp_all add: wf_tensor_def)
  have f': "forward True ?W ?x (scalar 0) = Some (?y, ?lp)"
  proof -
    have "forward True ?W ?x (scalar 0) =
       (case mask_purify ?M ?jd 0 of
          None \<Rightarrow> None
        | Some purified \<Rightarrow>
            map_option (Pair \<lparr>shape = [2, 3], data = map2 (+) (data (sel ?act ?y1)) (data (sel (map Not ?act) ?x))\<rparr>)
              (bop (+) (scalar 0) (Module_sum_density True purified)))"
      by (rule wrapper_forward_eval [OF wx h3 inf' wy1])
    also have "\<dots> = map_option (Pair ?y) (bop (+) (scalar 0) ?lp)"
      by (simp only: pj option.case yd)
    also have "\<dots> = Some (?y, ?lp)"
      by (simp only: bop_zero_l [OF wlp] option.map)
    finally show ?thesis .
  qed
  let ?dp = "tmap (\<lambda>v. 2 * v) (Module_sum_density True (tmap (\<lambda>v. ln (cosh (artanh v))) (sel ?act ?y)))"
  have wdp: "wf_tensor ?dp" "shape ?dp = [2, 3]"
    using wsy by (simp_all add: wf_Module_sum_density shape_Module_sum_density density_shape_def)
  have ib': "backward True ?net (sel ?act ?y) (scalar 0) = Some (tmap artanh (sel ?act ?y), ?dp)"
    using wdp(1) by (simp add: Tanh_backward_def ArcTanh_forward_eq Module_init_def bop_zero_l)
  have pp: "mask_purify ?M ?dp 0 = Some (sel ?act ?dp)"
    using wdp h3 by (rule lane_purify)
  have xd: "\<lparr>shape = [2, 3],
       data = map2 (+) (data (sel ?act (tmap artanh (sel ?act ?y)))) (data (sel (map Not ?act) ?y))\<rparr> = ?x"
    by (simp add: sel_def artanh_tanh_real)
  have zd: "bop (+) ?lp (Module_sum_density True (sel ?act ?dp)) = Some (\<lparr>shape = [2, 3], data = [0, 0, 0, 0, 0, 0]\<rparr>)"
  proof -
    have "wf_tensor (Module_sum_density True (sel ?act ?dp))"
      using wdp by (intro wf_Module_sum_density wf_sel) (simp_all add: wf_tensor_def)
    moreover have "shape ?lp = shape (Module_sum_density True (sel ?act ?dp))"
      by (simp add: shape_Module_sum_density density_shape_def)
    ultimately have "bop (+) ?lp (Module_sum_density True (sel ?act ?dp)) =
        Some \<lparr>shape = shape ?lp, data = map2 (+) (data ?lp) (data (Module_sum_density True (sel ?act ?dp)))\<rparr>"
      using wlp by (intro bop_same)
    also have "\<dots> = Some (\<lparr>shape = [2, 3], data = [0, 0, 0, 0, 0, 0]\<rparr>)"
      by (simp add: Module_sum_density_def sel_def artanh_tanh_real)
    finally show ?thesis .
  qed
  have b': "backward True ?W ?y ?lp = Some (?x, \<lparr>shape = [2, 3], data = [0, 0, 0, 0, 0, 0]\<rparr>)"
  proof -
    have "backward True ?W ?y ?lp =
       (case mask_purify ?M ?dp 0 of
          None \<Rightarrow> None
        | Some purified \<Rightarrow>
            map_option (Pair \<lparr>shape = [2, 3],
                 data = map2 (+) (data (sel ?act (tmap artanh (sel ?act ?y)))) (data (sel (map Not ?act) ?y))\<rparr>)
              (bop (+) ?lp (Module_sum_density True purified)))"
      by (rule wrapper_backward_eval [OF wy h3 ib' wb1])
    also have "\<dots> = Some (?x, \<lparr>shape = [2, 3], data = [0, 0, 0, 0, 0, 0]\<rparr>)"
      by (simp only: pp option.case xd zd option.map)
    finally show ?thesis .
  qed
  from i f b f' b' show ?thesis by blast
qed

end
